theory Spec2Isabelle
  imports Complex_Main
begin

section \<open>Python strings\<close>

text \<open>
  A Python \<open>str\<close> is a sequence of code points. It is modelled as a \<^typ>\<open>string\<close> whose
  characters are the code points 0 to 255, so \<^const>\<open>length\<close> and \<^const>\<open>take\<close> count what
  Python's \<open>len\<close> and slicing count. Texts with code points above 255 are outside the model.
\<close>

definition LF :: char where
  "LF = CHR 0x0A"

definition CR :: char where
  "CR = CHR 0x0D"

text \<open>\<open>str.isspace\<close> on one code point below 256.\<close>

definition is_space :: "char \<Rightarrow> bool" where
  "is_space c = ((of_char c :: nat) \<in> {9, 10, 11, 12, 13, 28, 29, 30, 31, 32, 133, 160})"

text \<open>\<open>s.strip()\<close>: leading and trailing whitespace removed.\<close>

definition strip :: "string \<Rightarrow> string" where
  "strip s = rev (dropWhile is_space (rev (dropWhile is_space s)))"

text \<open>The line boundaries of \<open>str.splitlines\<close> below code point 256.\<close>

definition is_linebreak :: "char \<Rightarrow> bool" where
  "is_linebreak c = ((of_char c :: nat) \<in> {10, 11, 12, 13, 28, 29, 30, 133})"

text \<open>
  \<open>s.splitlines()\<close>: the text is cut at every line boundary, \<open>\r\n\<close> counting as one;
  the boundaries are dropped and no empty last line is produced. The first argument
  holds the characters of the current line, latest first.
\<close>

fun splitlines_from :: "string \<Rightarrow> string \<Rightarrow> string list" where
  "splitlines_from cur [] = (if cur = [] then [] else [rev cur])"
| "splitlines_from cur (c # cs) =
     (if is_linebreak c then
        rev cur # (case cs of
                     [] \<Rightarrow> []
                   | d # ds \<Rightarrow> if c = CR \<and> d = LF then splitlines_from [] ds
                              else splitlines_from [] (d # ds))
      else splitlines_from (c # cur) cs)"

definition splitlines :: "string \<Rightarrow> string list" where
  "splitlines s = splitlines_from [] s"

text \<open>\<open>s.replace(old, new)\<close> for a one-character \<open>old\<close>.\<close>

definition replace_char :: "char \<Rightarrow> string \<Rightarrow> string \<Rightarrow> string" where
  "replace_char old new s = concat (map (\<lambda>c. if c = old then new else [c]) s)"

text \<open>The regular-expression class \<open>\d\<close> below code point 256, and \<open>[a-zA-Z0-9_\-]\<close>.\<close>

definition is_digit :: "char \<Rightarrow> bool" where
  "is_digit c = (48 \<le> (of_char c :: nat) \<and> (of_char c :: nat) \<le> 57)"

definition is_safe_char :: "char \<Rightarrow> bool" where
  "is_safe_char c =
     (let n = (of_char c :: nat)
      in (97 \<le> n \<and> n \<le> 122) \<or> (65 \<le> n \<and> n \<le> 90) \<or> (48 \<le> n \<and> n \<le> 57)
         \<or> c = CHR ''_'' \<or> c = CHR ''-'')"

text \<open>\<open>str(n)\<close> for a natural number, and the value of a string of decimal digits.\<close>

definition digit_char :: "nat \<Rightarrow> char" where
  "digit_char n = ''0123456789'' ! (n mod 10)"

fun digits_of :: "nat \<Rightarrow> string" where
  "digits_of n =
     (if n < 10 then [digit_char n] else digits_of (n div 10) @ [digit_char (n mod 10)])"

declare digits_of.simps [simp del]

definition digit_val :: "char \<Rightarrow> nat" where
  "digit_val c = of_char c - 48"

definition nat_of_digits :: "string \<Rightarrow> nat" where
  "nat_of_digits s = foldl (\<lambda>a c. 10 * a + digit_val c) 0 s"

section \<open>Python floats\<close>

text \<open>
  A Python \<open>float\<close> is an IEEE 754 binary64 number. The program only produces values that
  are not negative: parsed digit strings, the literal \<open>0.1\<close>, sums of these and a file size
  divided by 1024. \<open>Finite m e\<close> is the number \<open>m * 2 ^ e\<close> in the format's own terms:
  a significand below \<open>2 ^ 53\<close> and the exponent of its last bit, from \<open>-1074\<close> to \<open>971\<close>,
  the significand at least \<open>2 ^ 52\<close> unless the exponent is \<open>-1074\<close>.
\<close>

datatype pyfloat = Finite nat int | PosInf

text \<open>The number a finite float stands for.\<close>

definition finite_value :: "nat \<Rightarrow> int \<Rightarrow> rat" where
  "finite_value m e = of_nat m * 2 powi e"

fun bit_length :: "nat \<Rightarrow> nat" where
  "bit_length n = (if n = 0 then 0 else bit_length (n div 2) + 1)"

declare bit_length.simps [simp del]

text \<open>\<open>n * 2 ^ k\<close> for \<open>k\<close> positive, \<open>n\<close> otherwise.\<close>

definition mul_pow2 :: "nat \<Rightarrow> int \<Rightarrow> nat" where
  "mul_pow2 n k = n * 2 ^ nat k"

text \<open>The quotient \<open>n / d\<close> rounded to the nearest integer, a tie going to the even one.\<close>

definition round_half_even :: "nat \<Rightarrow> nat \<Rightarrow> nat" where
  "round_half_even n d =
     (let f = n div d; r = n mod d
      in if 2 * r < d then f else if d < 2 * r then f + 1 else if even f then f else f + 1)"

text \<open>
  The fraction \<open>n / d\<close> rounded to the nearest binary64 number, ties to even, as
  \<open>float(str)\<close>, float addition and the true division of integers round: \<open>e\<close> is the
  exponent of the leading bit of \<open>n / d\<close>, \<open>p\<close> that of the last bit kept.
\<close>

definition round_double :: "nat \<Rightarrow> nat \<Rightarrow> pyfloat" where
  "round_double n d =
     (if n = 0 then Finite 0 (- 1074)
      else let k = int (bit_length n) - int (bit_length d);
               e = (if mul_pow2 d k \<le> mul_pow2 n (- k) then k else k - 1);
               p = max e (- 1022) - 52;
               m = round_half_even (mul_pow2 n (- p)) (mul_pow2 d p);
               (m', p') = (if m = 2 ^ 53 then (2 ^ 52, p + 1) else (m, p))
           in if 971 < p' then PosInf else Finite m' p')"

text \<open>\<open>float(s)\<close> for \<open>s\<close> of the form digits, point, digits.\<close>

definition float_of_decimal :: "string \<Rightarrow> pyfloat" where
  "float_of_decimal s =
     (let a = takeWhile is_digit s; b = drop (length a + 1) s
      in round_double (nat_of_digits (a @ b)) (10 ^ length b))"

text \<open>The literal \<open>0.1\<close>.\<close>

definition one_tenth :: pyfloat where
  "one_tenth = round_double 1 10"

fun fadd :: "pyfloat \<Rightarrow> pyfloat \<Rightarrow> pyfloat" where
  "fadd (Finite m1 e1) (Finite m2 e2) =
     (let e = min e1 e2
      in round_double (mul_pow2 (m1 * 2 ^ nat (e1 - e) + m2 * 2 ^ nat (e2 - e)) e)
                      (mul_pow2 1 (- e)))"
| "fadd _ _ = PosInf"

text \<open>\<open>a < b\<close> on floats.\<close>

fun fless :: "pyfloat \<Rightarrow> pyfloat \<Rightarrow> bool" where
  "fless (Finite m1 e1) (Finite m2 e2) =
     (let e = min e1 e2 in m1 * 2 ^ nat (e1 - e) < m2 * 2 ^ nat (e2 - e))"
| "fless (Finite _ _) PosInf = True"
| "fless PosInf _ = False"

text \<open>\<open>max(xs)\<close> on a list that is not empty: the first of the largest items.\<close>

definition py_max :: "pyfloat \<Rightarrow> pyfloat list \<Rightarrow> pyfloat" where
  "py_max x xs = foldl (\<lambda>m v. if fless m v then v else m) x xs"

text \<open>
  \<open>format(x, '.1f')\<close>: the exact value rounded to one decimal, ties to even, and \<open>inf\<close>
  for infinity.
\<close>

fun format_1f :: "pyfloat \<Rightarrow> string" where
  "format_1f (Finite m e) =
     (let t = round_half_even (mul_pow2 (10 * m) e) (mul_pow2 1 (- e))
      in digits_of (t div 10) @ ''.'' @ digits_of (t mod 10))"
| "format_1f PosInf = ''inf''"

text \<open>The decimal with one fractional digit that stands for \<open>k\<close> tenths.\<close>

definition show_tenths :: "nat \<Rightarrow> string" where
  "show_tenths k = digits_of (k div 10) @ ''.'' @ digits_of (k mod 10)"

section \<open>The functions of git\_to\_zip.py without effects\<close>

definition sanitize_filename :: "string \<Rightarrow> string" where
  "sanitize_filename name = filter is_safe_char (replace_char (CHR '' '') ''_'' name)"

text \<open>
  \<open>pattern.match(f)\<close> for \<open>update_(\d+\.\d+)\<close>, giving group 1. Both \<open>\d+\<close> are greedy,
  and giving digits back never helps the first one, since the next character must be
  the point.
\<close>

definition match_version :: "string \<Rightarrow> string option" where
  "match_version f =
     (if take 7 f = ''update_'' then
        let r = drop 7 f; a = takeWhile is_digit r; r' = dropWhile is_digit r
        in (case r' of
              [] \<Rightarrow> None
            | c # r'' \<Rightarrow>
                let b = takeWhile is_digit r''
                in if a \<noteq> [] \<and> c = CHR ''.'' \<and> b \<noteq> [] then Some (a @ ''.'' @ b) else None)
      else None)"

text \<open>The list \<open>versions\<close> that the loop of \<open>get_next_version\<close> builds from a listing.\<close>

fun versions_in :: "string list \<Rightarrow> pyfloat list" where
  "versions_in [] = []"
| "versions_in (f # fs) =
     (case match_version f of
        Some g \<Rightarrow> float_of_decimal g # versions_in fs
      | None \<Rightarrow> versions_in fs)"

text \<open>\<open>max(versions) + 0.1 if versions else 0.1\<close>.\<close>

definition next_version_of :: "pyfloat list \<Rightarrow> pyfloat" where
  "next_version_of versions =
     (case versions of [] \<Rightarrow> one_tenth | v # vs \<Rightarrow> fadd (py_max v vs) one_tenth)"

definition zip_name :: "pyfloat \<Rightarrow> string \<Rightarrow> string \<Rightarrow> string" where
  "zip_name version timestamp message =
     ''update_'' @ format_1f version @ ''_'' @ timestamp @ ''_''
       @ sanitize_filename (take 20 message) @ ''.zip''"

text \<open>\<open>os.path.join(a, b)\<close> of posixpath.\<close>

definition path_join :: "string \<Rightarrow> string \<Rightarrow> string" where
  "path_join a b =
     (if take 1 b = ''/'' then b
      else if a = [] \<or> last a = CHR ''/'' then a @ b
      else a @ ''/'' @ b)"

text \<open>\<open>x or y\<close> where \<open>x\<close> is \<open>None\<close> or a string: \<open>None\<close> and the empty string are false.\<close>

definition py_or :: "string option \<Rightarrow> string \<Rightarrow> string" where
  "py_or x y = (case x of None \<Rightarrow> y | Some s \<Rightarrow> if s = [] then y else s)"

section \<open>The world the program runs in\<close>

text \<open>
  Git, the file system and the clock are outside the program. A world gives what each
  query answers: for a git command either the text of the \<open>CalledProcessError\<close>
  (\<open>Inl\<close>) or its decoded output (\<open>Inr\<close>); the regular files with their bytes and the
  directories with their entries, all paths read from the project root, where \<open>main\<close>
  changes to before it touches a file; the archives, each a list of entries (name and
  bytes) in the order written; the local date as \<open>strftime('%Y%m%d')\<close> prints it; and the
  size in bytes of the file that \<open>zipfile\<close> writes for given entries.

  A path is the string the program uses: two spellings of one place are two paths.
  Of the directories that \<open>makedirs\<close> makes only the one it is asked for is recorded,
  and permissions never fail. \<open>zipf.write(file)\<close> stores the bytes of \<open>file\<close> under the
  name \<open>file\<close>, the paths being relative ones as git prints them; the archive being
  written is not itself among the files read.
\<close>

type_synonym path = string

type_synonym entries = "(path \<times> string) list"

record world =
  git_rev_parse :: "string + string"
  git_describe :: "string + string"
  git_diff :: "string \<Rightarrow> string + string"
  git_log :: "string \<Rightarrow> string + string"
  files :: "path \<rightharpoonup> string"
  dirs :: "path \<rightharpoonup> string list"
  archives :: "path \<rightharpoonup> entries"
  today :: string
  archive_size :: "entries \<Rightarrow> nat"

text \<open>The parsed command line, with \<open>argparse\<close>'s defaults.\<close>

record args =
  arg_output :: string
  arg_base :: "string option"
  arg_head :: string

definition default_args :: args where
  "default_args = \<lparr>arg_output = ''updates'', arg_base = None, arg_head = ''HEAD''\<rparr>"

text \<open>
  How a run ends: \<open>main\<close> returns (exit status 0), \<open>sys.exit(n)\<close>, or an exception nobody
  catches (traceback, exit status 1).
\<close>

datatype outcome = Returned | SysExit nat | Raised string

fun exit_status :: "outcome \<Rightarrow> nat" where
  "exit_status Returned = 0"
| "exit_status (SysExit n) = n"
| "exit_status (Raised _) = 1"

record run =
  outcome :: outcome
  printed :: "string list"
  after :: world

section \<open>The functions of git\_to\_zip.py with effects\<close>

text \<open>A function that may call \<open>sys.exit(1)\<close> gives \<open>Inl\<close> of the line it printed before.\<close>

definition get_git_root :: "world \<Rightarrow> string + string" where
  "get_git_root w =
     (case git_rev_parse w of
        Inr out \<Rightarrow> Inr (strip out)
      | Inl e \<Rightarrow> Inl ''Error: Not a Git repository'')"

definition get_changed_files :: "world \<Rightarrow> string \<Rightarrow> string \<Rightarrow> string + path list" where
  "get_changed_files w base_ref head_ref =
     (case git_diff w (base_ref @ ''..'' @ head_ref) of
        Inr out \<Rightarrow> Inr (filter (\<lambda>f. files w f \<noteq> None) (splitlines out))
      | Inl e \<Rightarrow> Inl (''Error running git diff: '' @ e))"

definition get_latest_tag :: "world \<Rightarrow> string option" where
  "get_latest_tag w = (case git_describe w of Inr out \<Rightarrow> Some (strip out) | Inl e \<Rightarrow> None)"

definition get_commit_message :: "world \<Rightarrow> string \<Rightarrow> string \<Rightarrow> string" where
  "get_commit_message w base_ref head_ref =
     (case git_log w (base_ref @ ''..'' @ head_ref) of
        Inr out \<Rightarrow> replace_char LF '' |'' (strip out)
      | Inl e \<Rightarrow> [])"

text \<open>\<open>os.listdir\<close>; \<open>Inl\<close> names the exception.\<close>

definition listdir :: "world \<Rightarrow> path \<Rightarrow> string + string list" where
  "listdir w d = (case dirs w d of Some l \<Rightarrow> Inr l | None \<Rightarrow> Inl ''FileNotFoundError'')"

text \<open>
  A path without the slashes at its end, and the parent components of a path: its
  prefixes that a slash follows, as \<open>a\<close> and \<open>a/b\<close> for \<open>a/b/c\<close>.
\<close>

definition drop_trailing_slashes :: "path \<Rightarrow> path" where
  "drop_trailing_slashes d = rev (dropWhile (\<lambda>c. c = CHR ''/'') (rev d))"

fun parents_from :: "path \<Rightarrow> path \<Rightarrow> path list" where
  "parents_from pre [] = []"
| "parents_from pre (c # cs) =
     (if c = CHR ''/'' \<and> pre \<noteq> [] then pre # parents_from (pre @ [c]) cs
      else parents_from (pre @ [c]) cs)"

definition parent_dirs :: "path \<Rightarrow> path list" where
  "parent_dirs d = parents_from [] (drop_trailing_slashes d)"

text \<open>
  \<open>os.makedirs(path, exist_ok=True)\<close>; \<open>Inl\<close> names the exception. It raises for the
  empty path, when a parent component is a regular file, since no directory can be made
  below a file, and when the path itself is a regular file. Otherwise the directory is
  there afterwards, made empty when it was not there before.
\<close>

definition makedirs :: "world \<Rightarrow> path \<Rightarrow> string + world" where
  "makedirs w d =
     (if d = [] then Inl ''FileNotFoundError''
      else if list_ex (\<lambda>p. files w p \<noteq> None) (parent_dirs d) then Inl ''NotADirectoryError''
      else if files w (drop_trailing_slashes d) \<noteq> None then Inl ''FileExistsError''
      else if dirs w d \<noteq> None then Inr w
      else Inr (w\<lparr>dirs := (dirs w)(d \<mapsto> [])\<rparr>))"

definition get_next_version :: "world \<Rightarrow> path \<Rightarrow> string + pyfloat" where
  "get_next_version w output_dir =
     (case listdir w output_dir of
        Inr listing \<Rightarrow> Inr (next_version_of (versions_in listing))
      | Inl e \<Rightarrow> Inl e)"

text \<open>
  The loop of \<open>create_update_zip\<close>: the state is the entries written and the lines
  printed so far; a file that cannot be read ends it with the exception.
\<close>

fun write_files :: "world \<Rightarrow> path list \<Rightarrow> entries \<Rightarrow> string list
    \<Rightarrow> string option \<times> entries \<times> string list" where
  "write_files w [] es out = (None, es, out)"
| "write_files w (file # rest) es out =
     (case files w file of
        Some data \<Rightarrow> write_files w rest (es @ [(file, data)]) (out @ [''Added: '' @ file])
      | None \<Rightarrow> (Some ''FileNotFoundError'', es, out))"

text \<open>
  \<open>create_update_zip\<close> gives the world after it, the lines printed and the path it
  returns, or the exception. The archive is opened for writing in the directory
  \<open>output_dir\<close> (the current one for the empty string), which must exist, and replaces
  a file of the same name.
\<close>

definition create_update_zip ::
    "world \<Rightarrow> path list \<Rightarrow> path \<Rightarrow> pyfloat \<Rightarrow> string \<Rightarrow> world \<times> string list \<times> (string + path)" where
  "create_update_zip w fs output_dir version message =
     (let sanitized_msg = sanitize_filename (take 20 message);
          timestamp = today w;
          name = ''update_'' @ format_1f version @ ''_'' @ timestamp @ ''_'' @ sanitized_msg
                   @ ''.zip'';
          zip_path = path_join output_dir name;
          d = (if output_dir = [] then ''.'' else output_dir)
      in case dirs w d of
           None \<Rightarrow> (w, [], Inl ''FileNotFoundError'')
         | Some listing \<Rightarrow>
             (case write_files w fs [] [] of
                (err, es, out) \<Rightarrow>
                  (w\<lparr>dirs := (dirs w)(d \<mapsto> List.insert name listing),
                     archives := (archives w)(zip_path \<mapsto> es)\<rparr>,
                   out,
                   case err of None \<Rightarrow> Inr zip_path | Some e \<Rightarrow> Inl e)))"

text \<open>\<open>args.base or get_latest_tag() or 'HEAD~1'\<close>.\<close>

definition base_ref_of :: "world \<Rightarrow> args \<Rightarrow> string" where
  "base_ref_of w a = py_or (arg_base a) (py_or (get_latest_tag w) ''HEAD~1'')"

definition main :: "world \<Rightarrow> args \<Rightarrow> run" where
  "main w a =
     (case get_git_root w of
        Inl line \<Rightarrow> \<lparr>outcome = SysExit 1, printed = [line], after = w\<rparr>
      | Inr git_root \<Rightarrow>
          let base_ref = base_ref_of w a; head_ref = arg_head a
          in (case makedirs w (arg_output a) of
                Inl e \<Rightarrow> \<lparr>outcome = Raised e, printed = [], after = w\<rparr>
              | Inr w1 \<Rightarrow>
                  (case get_changed_files w1 base_ref head_ref of
                     Inl line \<Rightarrow> \<lparr>outcome = SysExit 1, printed = [line], after = w1\<rparr>
                   | Inr changed_files \<Rightarrow>
                       if changed_files = [] then
                         \<lparr>outcome = Returned,
                          printed = [''No changed files found between '' @ base_ref
                                       @ '' and '' @ head_ref],
                          after = w1\<rparr>
                       else
                         (case get_next_version w1 (arg_output a) of
                            Inl e \<Rightarrow> \<lparr>outcome = Raised e, printed = [], after = w1\<rparr>
                          | Inr version \<Rightarrow>
                              let commit_message =
                                    py_or (Some (get_commit_message w1 base_ref head_ref))
                                      (base_ref @ ''_to_'' @ head_ref);
                                  lines =
                                    [''Creating update package v'' @ format_1f version,
                                     ''Changes from '' @ base_ref @ '' to '' @ head_ref,
                                     ''Files count: '' @ digits_of (length changed_files)]
                              in (case create_update_zip w1 changed_files (arg_output a) version
                                         commit_message of
                                    (w2, out, Inl e) \<Rightarrow>
                                      \<lparr>outcome = Raised e, printed = lines @ out, after = w2\<rparr>
                                  | (w2, out, Inr zip_path) \<Rightarrow>
                                      \<lparr>outcome = Returned,
                                       printed = lines @ out
                                         @ [LF # ''Update package created: '' @ zip_path,
                                            ''Size: ''
                                              @ format_1f (round_double
                                                  (case archives w2 zip_path of
                                                     Some es \<Rightarrow> archive_size w2 es
                                                   | None \<Rightarrow> 0) 1024)
                                              @ '' KB''],
                                       after = w2\<rparr>)))))"

section \<open>Concrete worlds\<close>

text \<open>The letters, digits, underscore and hyphen that a sanitized name may hold.\<close>

definition safe_alphabet :: string where
  "safe_alphabet = ''abcdefghijklmnopqrstuvwxyzABCDEFGHIJKLMNOPQRSTUVWXYZ0123456789_-''"

definition exit_128 :: string where
  "exit_128 = ''Command git returned non-zero exit status 128.''"

text \<open>
  A project without tags whose last commit, with the subject \<open>Fix bug in parser\<close>,
  changed two files; no output directory yet; the date is 15 March 2024.
\<close>

definition parser_world :: world where
  "parser_world =
     \<lparr>git_rev_parse = Inr (''/home/dev/project'' @ [LF]),
      git_describe = Inl exit_128,
      git_diff = (\<lambda>r. if r = ''HEAD~1..HEAD''
                        then Inr (''README.md'' @ [LF] @ ''src/parser.py'' @ [LF])
                        else Inl exit_128),
      git_log = (\<lambda>r. if r = ''HEAD~1..HEAD'' then Inr (''Fix bug in parser'' @ [LF])
                       else Inl exit_128),
      files = [''README.md'' \<mapsto> ''# Parser'', ''src/parser.py'' \<mapsto> ''def parse(): pass''],
      dirs = Map.empty,
      archives = Map.empty,
      today = ''20240315'',
      archive_size = (\<lambda>es. 310)\<rparr>"

text \<open>The same project when \<open>git log\<close> fails, when \<open>git diff\<close> fails, when nothing changed.\<close>

definition log_fails_world :: world where
  "log_fails_world = parser_world\<lparr>git_log := (\<lambda>r. Inl exit_128)\<rparr>"

definition diff_fails_world :: world where
  "diff_fails_world = parser_world\<lparr>git_diff := (\<lambda>r. Inl exit_128)\<rparr>"

definition unchanged_world :: world where
  "unchanged_world = parser_world\<lparr>git_diff := (\<lambda>r. Inr []), git_log := (\<lambda>r. Inr [])\<rparr>"

text \<open>
  The same project when \<open>git log\<close> prints nothing but a line end, and when the head asked
  for is the branch \<open>feature\<close>, which does not differ from the commit before \<open>HEAD\<close>.
\<close>

definition silent_log_world :: world where
  "silent_log_world = parser_world\<lparr>git_log := (\<lambda>r. Inr [LF])\<rparr>"

definition feature_world :: world where
  "feature_world =
     parser_world\<lparr>git_diff := (\<lambda>r. if r = ''HEAD~1..feature'' then Inr [] else Inl exit_128)\<rparr>"

text \<open>The same project with a tag, and with two earlier archives in the output directory.\<close>

definition tagged_world :: world where
  "tagged_world = parser_world\<lparr>git_describe := Inr (''v1.2'' @ [LF])\<rparr>"

definition two_archives :: "string list" where
  "two_archives = [''update_1.3_20240101_x.zip'', ''update_0.9_20240102_y.zip'']"

definition archived_world :: world where
  "archived_world = parser_world\<lparr>dirs := [''updates'' \<mapsto> ''notes.txt'' # two_archives]\<rparr>"

text \<open>The same project with an earlier archive whose version is above \<open>2 ^ 53\<close>.\<close>

definition huge_version_world :: world where
  "huge_version_world =
     parser_world\<lparr>dirs := [''updates'' \<mapsto> [''update_9007199254740993.0_x.zip'']]\<rparr>"

section \<open>Facts about the steps of a run\<close>

lemma main_cong:
  assumes "base_ref_of w a = base_ref_of w b" "arg_head a = arg_head b"
    "arg_output a = arg_output b"
  shows "main w a = main w b"
  unfolding main_def by (simp only: assms)

lemma makedirs_keeps:
  assumes "makedirs w d = Inr w1"
  shows "git_rev_parse w1 = git_rev_parse w" "git_describe w1 = git_describe w"
    "git_diff w1 = git_diff w" "git_log w1 = git_log w" "files w1 = files w"
    "archives w1 = archives w" "today w1 = today w" "archive_size w1 = archive_size w"
  using assms by (auto simp: makedirs_def split: if_splits)

lemma makedirs_dirs:
  assumes "makedirs w d = Inr w1"
  shows "dirs w1 = (dirs w)(d \<mapsto> (case dirs w d of None \<Rightarrow> [] | Some l \<Rightarrow> l))"
  using assms by (auto simp: makedirs_def split: if_splits)

lemma makedirs_nonempty: "makedirs w d = Inr w1 \<Longrightarrow> d \<noteq> []"
  by (auto simp: makedirs_def split: if_splits)


lemma get_changed_files_makedirs:
  "makedirs w d = Inr w1 \<Longrightarrow> get_changed_files w1 b h = get_changed_files w b h"
  by (simp add: get_changed_files_def makedirs_keeps split: sum.splits)

lemma get_commit_message_makedirs:
  "makedirs w d = Inr w1 \<Longrightarrow> get_commit_message w1 b h = get_commit_message w b h"
  by (simp add: get_commit_message_def makedirs_keeps split: sum.splits)

lemma write_files_all:
  "\<forall>f \<in> set fs. files w f \<noteq> None \<Longrightarrow>
   write_files w fs es out
     = (None, es @ map (\<lambda>f. (f, the (files w f))) fs, out @ map (\<lambda>f. ''Added: '' @ f) fs)"
  by (induction fs arbitrary: es out) auto

lemma create_update_zip_ok:
  assumes "d \<noteq> []" "dirs w d = Some listing" "\<forall>f \<in> set fs. files w f \<noteq> None"
  shows "create_update_zip w fs d v msg
     = (w\<lparr>dirs := (dirs w)(d \<mapsto> List.insert (zip_name v (today w) msg) listing),
          archives := (archives w)(path_join d (zip_name v (today w) msg)
                         \<mapsto> map (\<lambda>f. (f, the (files w f))) fs)\<rparr>,
        map (\<lambda>f. ''Added: '' @ f) fs,
        Inr (path_join d (zip_name v (today w) msg)))"
  using assms by (simp add: create_update_zip_def zip_name_def write_files_all Let_def)

lemma main_not_repo:
  "git_rev_parse w = Inl e \<Longrightarrow>
   main w a = \<lparr>outcome = SysExit 1, printed = [''Error: Not a Git repository''], after = w\<rparr>"
  by (simp add: main_def get_git_root_def)


lemma main_diff_fails:
  "git_rev_parse w = Inr r \<Longrightarrow> makedirs w (arg_output a) = Inr w1 \<Longrightarrow>
   git_diff w (base_ref_of w a @ ''..'' @ arg_head a) = Inl e \<Longrightarrow>
   main w a = \<lparr>outcome = SysExit 1, printed = [''Error running git diff: '' @ e], after = w1\<rparr>"
  by (simp add: main_def Let_def get_git_root_def get_changed_files_def makedirs_keeps)

lemma main_no_changes:
  "git_rev_parse w = Inr r \<Longrightarrow> makedirs w (arg_output a) = Inr w1 \<Longrightarrow>
   get_changed_files w (base_ref_of w a) (arg_head a) = Inr [] \<Longrightarrow>
   main w a = \<lparr>outcome = Returned,
               printed = [''No changed files found between '' @ base_ref_of w a
                            @ '' and '' @ arg_head a],
               after = w1\<rparr>"
  by (simp add: main_def Let_def get_git_root_def get_changed_files_makedirs)

lemma get_changed_files_exist:
  "get_changed_files w b h = Inr cs \<Longrightarrow> \<forall>f \<in> set cs. files w f \<noteq> None"
  by (auto simp: get_changed_files_def split: sum.splits)

lemma main_builds:
  assumes root: "git_rev_parse w = Inr r"
    and mk: "makedirs w (arg_output a) = Inr w1"
    and cs: "get_changed_files w (base_ref_of w a) (arg_head a) = Inr cs" "cs \<noteq> []"
    and listing: "listing = (case dirs w (arg_output a) of None \<Rightarrow> [] | Some l \<Rightarrow> l)"
    and version: "version = next_version_of (versions_in listing)"
    and message: "message = py_or (Some (get_commit_message w (base_ref_of w a) (arg_head a)))
                    (base_ref_of w a @ ''_to_'' @ arg_head a)"
    and name: "name = zip_name version (today w) message"
  shows "outcome (main w a) = Returned"
    and "archives (after (main w a))
          = (archives w)(path_join (arg_output a) name \<mapsto> map (\<lambda>f. (f, the (files w f))) cs)"
    and "dirs (after (main w a)) = (dirs w)(arg_output a \<mapsto> List.insert name listing)"
    and "files (after (main w a)) = files w"
    and "printed (main w a) =
           [''Creating update package v'' @ format_1f version,
            ''Changes from '' @ base_ref_of w a @ '' to '' @ arg_head a,
            ''Files count: '' @ digits_of (length cs)]
           @ map (\<lambda>f. ''Added: '' @ f) cs
           @ [LF # ''Update package created: '' @ path_join (arg_output a) name,
              ''Size: '' @ format_1f (round_double
                  (archive_size w (map (\<lambda>f. (f, the (files w f))) cs)) 1024) @ '' KB'']"
proof -
  have d: "arg_output a \<noteq> []" using mk by (rule makedirs_nonempty)
  have l1: "dirs w1 (arg_output a) = Some listing"
    using makedirs_dirs [OF mk] listing by simp
  have ex: "\<forall>f \<in> set cs. files w1 f \<noteq> None"
    using get_changed_files_exist [OF cs(1)] makedirs_keeps(5) [OF mk] by simp
  have nv: "get_next_version w1 (arg_output a) = Inr version"
    by (simp add: get_next_version_def listdir_def l1 version)
  have m: "main w a =
     \<lparr>outcome = Returned,
      printed = [''Creating update package v'' @ format_1f version,
            ''Changes from '' @ base_ref_of w a @ '' to '' @ arg_head a,
            ''Files count: '' @ digits_of (length cs)]
           @ map (\<lambda>f. ''Added: '' @ f) cs
           @ [LF # ''Update package created: '' @ path_join (arg_output a) name,
              ''Size: '' @ format_1f (round_double
                  (archive_size w (map (\<lambda>f. (f, the (files w f))) cs)) 1024) @ '' KB''],
      after = w1\<lparr>dirs := (dirs w1)(arg_output a \<mapsto> List.insert name listing),
          archives := (archives w1)(path_join (arg_output a) name
                         \<mapsto> map (\<lambda>f. (f, the (files w1 f))) cs)\<rparr>\<rparr>"
    using cs
    by (simp add: main_def Let_def get_git_root_def root mk get_changed_files_makedirs [OF mk] nv
        get_commit_message_makedirs [OF mk] create_update_zip_ok [OF d l1 ex] name message
        makedirs_keeps [OF mk])
  show "outcome (main w a) = Returned" by (simp add: m)
  show "archives (after (main w a))
          = (archives w)(path_join (arg_output a) name \<mapsto> map (\<lambda>f. (f, the (files w f))) cs)"
    by (simp add: m makedirs_keeps [OF mk])
  show "dirs (after (main w a)) = (dirs w)(arg_output a \<mapsto> List.insert name listing)"
    by (simp add: m makedirs_dirs [OF mk])
  show "files (after (main w a)) = files w" by (simp add: m makedirs_keeps [OF mk])
  show "printed (main w a) =
           [''Creating update package v'' @ format_1f version,
            ''Changes from '' @ base_ref_of w a @ '' to '' @ arg_head a,
            ''Files count: '' @ digits_of (length cs)]
           @ map (\<lambda>f. ''Added: '' @ f) cs
           @ [LF # ''Update package created: '' @ path_join (arg_output a) name,
              ''Size: '' @ format_1f (round_double
                  (archive_size w (map (\<lambda>f. (f, the (files w f))) cs)) 1024) @ '' KB'']"
    by (simp add: m)
qed

section \<open>Sanitization and the base reference\<close>

lemma all_safe: "list_all is_safe_char safe_alphabet"
  by (simp add: safe_alphabet_def is_safe_char_def)

lemma safe_alphabet_is_safe: "c \<in> set safe_alphabet \<Longrightarrow> is_safe_char c"
  using all_safe by (simp only: list_all_iff)

lemma safe_alphabet_no_space: "c \<in> set safe_alphabet \<Longrightarrow> c \<noteq> CHR '' ''"
  unfolding safe_alphabet_def by auto

lemma replace_char_absent: "old \<notin> set s \<Longrightarrow> replace_char old new s = s"
  unfolding replace_char_def by (induction s) auto

lemma sanitize_safe:
  assumes "set s \<subseteq> set safe_alphabet"
  shows "sanitize_filename s = s"
proof -
  have "CHR '' '' \<notin> set s" using assms safe_alphabet_no_space by blast
  then have "replace_char (CHR '' '') ''_'' s = s" by (rule replace_char_absent)
  moreover have "filter is_safe_char s = s"
    using assms safe_alphabet_is_safe by (auto simp: filter_id_conv)
  ultimately show ?thesis by (simp add: sanitize_filename_def)
qed

text \<open>
  C7. A message made only of letters, digits, underscores and hyphens comes out of the
  sanitization of \<open>create_update_zip\<close> unchanged, apart from being cut to its first 20
  characters.
\<close>

theorem sanitize_unchanged:
  "set message \<subseteq> set safe_alphabet \<Longrightarrow>
   sanitize_filename (take 20 message) = take 20 message"
  by (rule sanitize_safe) (meson order_trans set_take_subset)

theorem sanitize_unchanged_witness:
  "set ''Release-2_final-build_candidate-7'' \<subseteq> set safe_alphabet
   \<and> sanitize_filename (take 20 ''Release-2_final-build_candidate-7'') = ''Release-2_final-buil''"
proof -
  have h: "set ''Release-2_final-build_candidate-7'' \<subseteq> set safe_alphabet"
    by (simp add: safe_alphabet_def)
  show ?thesis using h sanitize_unchanged [OF h] by simp
qed

lemma base_ref_empty:
  "base_ref_of w (a\<lparr>arg_base := Some []\<rparr>) = base_ref_of w (a\<lparr>arg_base := None\<rparr>)"
  by (simp add: base_ref_of_def py_or_def)

lemma main_base_empty: "main w (a\<lparr>arg_base := Some []\<rparr>) = main w (a\<lparr>arg_base := None\<rparr>)"
  by (rule main_cong) (simp_all add: base_ref_empty)

text \<open>
  C10. With \<open>--base\<close> given as the empty string the base is resolved as when it is left
  out: the latest tag if there is one, \<open>HEAD~1\<close> otherwise, and the whole run is the same.
\<close>

theorem empty_base_as_omitted:
  "base_ref_of w (a\<lparr>arg_base := Some []\<rparr>) = base_ref_of w (a\<lparr>arg_base := None\<rparr>)
   \<and> base_ref_of w (a\<lparr>arg_base := Some []\<rparr>)
       = (case get_latest_tag w of None \<Rightarrow> ''HEAD~1'' | Some t \<Rightarrow> if t = [] then ''HEAD~1'' else t)
   \<and> main w (a\<lparr>arg_base := Some []\<rparr>) = main w (a\<lparr>arg_base := None\<rparr>)"
  by (simp add: main_base_empty) (simp add: base_ref_of_def py_or_def)

theorem empty_base_as_omitted_witness:
  "base_ref_of tagged_world (default_args\<lparr>arg_base := Some []\<rparr>) = ''v1.2''
   \<and> base_ref_of tagged_world (default_args\<lparr>arg_base := None\<rparr>) = ''v1.2''
   \<and> base_ref_of parser_world (default_args\<lparr>arg_base := Some []\<rparr>) = ''HEAD~1''"
proof -
  have t: "get_latest_tag tagged_world = Some ''v1.2''"
    by (simp add: get_latest_tag_def tagged_world_def parser_world_def strip_def is_space_def
        LF_def)
  have p: "get_latest_tag parser_world = None"
    by (simp add: get_latest_tag_def parser_world_def)
  have a: "base_ref_of tagged_world (default_args\<lparr>arg_base := Some []\<rparr>) = ''v1.2''"
    using conjunct1 [OF conjunct2 [OF empty_base_as_omitted [of tagged_world default_args]]]
    by (simp add: t)
  have b: "base_ref_of tagged_world (default_args\<lparr>arg_base := None\<rparr>) = ''v1.2''"
    using conjunct1 [OF empty_base_as_omitted [of tagged_world default_args]] a by simp
  have c: "base_ref_of parser_world (default_args\<lparr>arg_base := Some []\<rparr>) = ''HEAD~1''"
    using conjunct1 [OF conjunct2 [OF empty_base_as_omitted [of parser_world default_args]]]
    by (simp add: p)
  show ?thesis using a b c by blast
qed

section \<open>Runs that build no archive\<close>

lemma parser_root: "git_rev_parse parser_world = Inr (''/home/dev/project'' @ [LF])"
  by (simp add: parser_world_def)

lemma parser_makedirs:
  "makedirs parser_world ''updates'' = Inr (parser_world\<lparr>dirs := [''updates'' \<mapsto> []]\<rparr>)"
  by (simp add: makedirs_def parent_dirs_def drop_trailing_slashes_def parser_world_def)

lemma parser_base: "base_ref_of parser_world default_args = ''HEAD~1''"
  by (simp add: base_ref_of_def py_or_def get_latest_tag_def parser_world_def default_args_def)

lemma parser_changed:
  "get_changed_files parser_world ''HEAD~1'' ''HEAD'' = Inr [''README.md'', ''src/parser.py'']"
  by (simp add: get_changed_files_def parser_world_def splitlines_def is_linebreak_def
      LF_def CR_def)

lemma parser_message: "get_commit_message parser_world ''HEAD~1'' ''HEAD'' = ''Fix bug in parser''"
  by (simp add: get_commit_message_def parser_world_def strip_def is_space_def
      replace_char_def LF_def)

lemma unchanged_root: "git_rev_parse unchanged_world = Inr (''/home/dev/project'' @ [LF])"
  by (simp add: unchanged_world_def parser_world_def)

lemma unchanged_makedirs:
  "makedirs unchanged_world ''updates'' = Inr (unchanged_world\<lparr>dirs := [''updates'' \<mapsto> []]\<rparr>)"
  by (simp add: makedirs_def parent_dirs_def drop_trailing_slashes_def unchanged_world_def parser_world_def)

lemma unchanged_base: "base_ref_of unchanged_world default_args = ''HEAD~1''"
  by (simp add: base_ref_of_def py_or_def get_latest_tag_def unchanged_world_def
      parser_world_def default_args_def)

lemma unchanged_changed: "get_changed_files unchanged_world ''HEAD~1'' ''HEAD'' = Inr []"
  by (simp add: get_changed_files_def unchanged_world_def parser_world_def splitlines_def)

lemma default_fields:
  "arg_output default_args = ''updates''" "arg_head default_args = ''HEAD''"
  "arg_base default_args = None"
  by (simp_all add: default_args_def)

text \<open>
  C5. When the change set is empty the run creates no archive, prints that no changed
  files were found between the two references, and ends with exit status 0.
\<close>

theorem no_changes_no_archive:
  "git_rev_parse w = Inr r \<Longrightarrow> makedirs w (arg_output a) = Inr w1 \<Longrightarrow>
   get_changed_files w (base_ref_of w a) (arg_head a) = Inr [] \<Longrightarrow>
   exit_status (outcome (main w a)) = 0
   \<and> printed (main w a)
       = [''No changed files found between '' @ base_ref_of w a @ '' and '' @ arg_head a]
   \<and> archives (after (main w a)) = archives w
   \<and> files (after (main w a)) = files w
   \<and> dirs (after (main w a))
       = (dirs w)(arg_output a \<mapsto> (case dirs w (arg_output a) of None \<Rightarrow> [] | Some l \<Rightarrow> l))"
  by (simp add: main_no_changes makedirs_keeps makedirs_dirs)

theorem no_changes_no_archive_witness:
  "exit_status (outcome (main unchanged_world default_args)) = 0
   \<and> printed (main unchanged_world default_args)
       = [''No changed files found between HEAD~1 and HEAD'']
   \<and> archives (after (main unchanged_world default_args)) = Map.empty
   \<and> dirs (after (main unchanged_world default_args)) = [''updates'' \<mapsto> []]"
proof -
  have h: "get_changed_files unchanged_world (base_ref_of unchanged_world default_args)
             (arg_head default_args) = Inr []"
    by (simp add: unchanged_base default_fields unchanged_changed)
  have m: "makedirs unchanged_world (arg_output default_args)
             = Inr (unchanged_world\<lparr>dirs := [''updates'' \<mapsto> []]\<rparr>)"
    by (simp add: default_fields unchanged_makedirs)
  have a: "archives unchanged_world = Map.empty" "dirs unchanged_world = Map.empty"
    by (simp_all add: unchanged_world_def parser_world_def)
  show ?thesis
    using no_changes_no_archive [OF unchanged_root m h]
    by (simp add: unchanged_base default_fields a)
qed






section \<open>Runs that build an archive\<close>

lemmas float_eval = round_double_def bit_length.simps mul_pow2_def round_half_even_def Let_def

lemma one_tenth_eval: "one_tenth = Finite 7205759403792794 (- 56)"
  by (simp add: one_tenth_def float_eval)

lemma format_one_tenth: "format_1f one_tenth = ''0.1''"
  by (simp add: one_tenth_eval mul_pow2_def round_half_even_def Let_def digits_of.simps
      digit_char_def)

text \<open>
  C4. When at least one changed file qualifies, the archive that the run writes holds
  exactly the entries of the change set that \<open>get_changed_files\<close> returned, in its
  order, each under its own relative path and with the bytes that the file has on disk.
\<close>

theorem archive_holds_change_set:
  fixes w :: world and a :: args
  defines "listing \<equiv> (case dirs w (arg_output a) of None \<Rightarrow> [] | Some l \<Rightarrow> l)"
  defines "message \<equiv> py_or (Some (get_commit_message w (base_ref_of w a) (arg_head a)))
                        (base_ref_of w a @ ''_to_'' @ arg_head a)"
  defines "zip_path \<equiv> path_join (arg_output a)
                         (zip_name (next_version_of (versions_in listing)) (today w) message)"
  assumes "git_rev_parse w = Inr r" and "makedirs w (arg_output a) = Inr w1"
    and "get_changed_files w (base_ref_of w a) (arg_head a) = Inr cs" and "cs \<noteq> []"
  shows "\<exists>es. archives (after (main w a)) zip_path = Some es
            \<and> map fst es = cs
            \<and> list_all (\<lambda>(f, data). files (after (main w a)) f = Some data) es
            \<and> outcome (main w a) = Returned
            \<and> LF # ''Update package created: '' @ zip_path \<in> set (printed (main w a))"
proof -
  let ?es = "map (\<lambda>f. (f, the (files w f))) cs"
  note b = main_builds [OF assms(4-7) refl refl refl refl]
  have ex: "\<forall>f \<in> set cs. files w f \<noteq> None"
    using assms(6) by (rule get_changed_files_exist)
  have 1: "archives (after (main w a)) zip_path = Some ?es"
    by (simp add: b(2) zip_path_def message_def listing_def)
  have 2: "map fst ?es = cs" by (simp add: comp_def)
  have 3: "list_all (\<lambda>(f, data). files (after (main w a)) f = Some data) ?es"
    using ex by (auto simp: list_all_iff b(4))
  have 4: "LF # ''Update package created: '' @ zip_path \<in> set (printed (main w a))"
    by (simp add: b(5) zip_path_def message_def listing_def)
  show ?thesis using 1 2 3 4 b(1) by blast
qed

lemma parser_dirs: "dirs parser_world = Map.empty" "archives parser_world = Map.empty"
  "today parser_world = ''20240315''"
  by (simp_all add: parser_world_def)

lemma parser_files:
  "files parser_world = [''README.md'' \<mapsto> ''# Parser'', ''src/parser.py'' \<mapsto> ''def parse(): pass'']"
  by (simp add: parser_world_def)

lemma zip_name_fix_bug:
  "zip_name one_tenth ''20240315'' ''Fix bug in parser''
     = ''update_0.1_20240315_Fix_bug_in_parser.zip''"
  by (simp add: zip_name_def format_one_tenth sanitize_filename_def replace_char_def
      is_safe_char_def Let_def)

lemma parser_hyps:
  "makedirs parser_world (arg_output default_args)
     = Inr (parser_world\<lparr>dirs := [''updates'' \<mapsto> []]\<rparr>)"
  "get_changed_files parser_world (base_ref_of parser_world default_args)
     (arg_head default_args) = Inr [''README.md'', ''src/parser.py'']"
  "get_commit_message parser_world (base_ref_of parser_world default_args)
     (arg_head default_args) = ''Fix bug in parser''"
  by (simp_all add: default_fields parser_makedirs parser_base parser_changed parser_message)

theorem archive_holds_change_set_witness:
  "\<exists>es. archives (after (main parser_world default_args))
           ''updates/update_0.1_20240315_Fix_bug_in_parser.zip'' = Some es
        \<and> map fst es = [''README.md'', ''src/parser.py'']
        \<and> outcome (main parser_world default_args) = Returned"
proof -
  have ne: "[''README.md'', ''src/parser.py''] \<noteq> []" by simp
  have p: "path_join (arg_output default_args)
             (zip_name (next_version_of (versions_in
                (case dirs parser_world (arg_output default_args) of None \<Rightarrow> [] | Some l \<Rightarrow> l)))
              (today parser_world)
              (py_or (Some (get_commit_message parser_world
                   (base_ref_of parser_world default_args) (arg_head default_args)))
                 (base_ref_of parser_world default_args @ ''_to_'' @ arg_head default_args)))
           = ''updates/update_0.1_20240315_Fix_bug_in_parser.zip''"
    by (simp add: default_fields parser_base parser_message parser_dirs next_version_of_def
        py_or_def zip_name_fix_bug path_join_def)
  from archive_holds_change_set [OF parser_root parser_hyps(1) parser_hyps(2) ne]
  obtain es where es:
    "archives (after (main parser_world default_args))
        ''updates/update_0.1_20240315_Fix_bug_in_parser.zip'' = Some es
     \<and> map fst es = [''README.md'', ''src/parser.py'']
     \<and> list_all (\<lambda>(f, data). files (after (main parser_world default_args)) f = Some data) es
     \<and> outcome (main parser_world default_args) = Returned
     \<and> LF # ''Update package created: ''
           @ ''updates/update_0.1_20240315_Fix_bug_in_parser.zip''
         \<in> set (printed (main parser_world default_args))"
    unfolding p ..
  show ?thesis
    by (rule exI [of _ es]) (simp only: es)
qed

text \<open>
  C6. With an empty output directory, the summary \<open>Fix bug in parser\<close> and the local
  date 15 March 2024, the run allocates the version 0.1, printed with one fractional
  digit, and names the archive \<open>update_0.1_20240315_Fix_bug_in_parser.zip\<close>.
\<close>

theorem scenario_a_archive_name:
  "git_rev_parse w = Inr r \<Longrightarrow> makedirs w (arg_output a) = Inr w1 \<Longrightarrow>
   dirs w1 (arg_output a) = Some [] \<Longrightarrow>
   get_changed_files w (base_ref_of w a) (arg_head a) = Inr cs \<Longrightarrow> cs \<noteq> [] \<Longrightarrow>
   get_commit_message w (base_ref_of w a) (arg_head a) = ''Fix bug in parser'' \<Longrightarrow>
   today w = ''20240315'' \<Longrightarrow>
   get_next_version w1 (arg_output a) = Inr one_tenth
   \<and> format_1f one_tenth = ''0.1''
   \<and> archives (after (main w a))
         (path_join (arg_output a) ''update_0.1_20240315_Fix_bug_in_parser.zip'')
       = Some (map (\<lambda>f. (f, the (files w f))) cs)
   \<and> dirs (after (main w a)) (arg_output a) = Some [''update_0.1_20240315_Fix_bug_in_parser.zip'']
   \<and> hd (printed (main w a)) = ''Creating update package v0.1''"
proof -
  assume root: "git_rev_parse w = Inr r" and mk: "makedirs w (arg_output a) = Inr w1"
    and empty: "dirs w1 (arg_output a) = Some []"
    and cs: "get_changed_files w (base_ref_of w a) (arg_head a) = Inr cs" "cs \<noteq> []"
    and msg: "get_commit_message w (base_ref_of w a) (arg_head a) = ''Fix bug in parser''"
    and date: "today w = ''20240315''"
  have l: "[] = (case dirs w (arg_output a) of None \<Rightarrow> [] | Some l \<Rightarrow> l)"
    using makedirs_dirs [OF mk] empty by simp
  have v: "one_tenth = next_version_of (versions_in [])"
    by (simp add: next_version_of_def)
  have m: "''Fix bug in parser''
      = py_or (Some (get_commit_message w (base_ref_of w a) (arg_head a)))
          (base_ref_of w a @ ''_to_'' @ arg_head a)"
    by (simp add: msg py_or_def)
  have n: "''update_0.1_20240315_Fix_bug_in_parser.zip''
      = zip_name one_tenth (today w) ''Fix bug in parser''"
    by (simp only: date zip_name_fix_bug)
  note b = main_builds [OF root mk cs l v m n]
  have 1: "get_next_version w1 (arg_output a) = Inr one_tenth"
    by (simp add: get_next_version_def listdir_def empty next_version_of_def)
  have 3: "archives (after (main w a))
         (path_join (arg_output a) ''update_0.1_20240315_Fix_bug_in_parser.zip'')
       = Some (map (\<lambda>f. (f, the (files w f))) cs)"
    by (simp only: b(2) fun_upd_same)
  have 4: "dirs (after (main w a)) (arg_output a)
       = Some [''update_0.1_20240315_Fix_bug_in_parser.zip'']"
    by (simp only: b(3) fun_upd_same) simp
  have 5: "hd (printed (main w a)) = ''Creating update package v0.1''"
    by (simp only: b(5) format_one_tenth) simp
  show ?thesis using 1 format_one_tenth 3 4 5 by blast
qed

theorem scenario_a_archive_name_witness:
  "archives (after (main parser_world default_args))
      ''updates/update_0.1_20240315_Fix_bug_in_parser.zip''
     = Some [(''README.md'', ''# Parser''), (''src/parser.py'', ''def parse(): pass'')]
   \<and> dirs (after (main parser_world default_args)) ''updates''
     = Some [''update_0.1_20240315_Fix_bug_in_parser.zip'']
   \<and> hd (printed (main parser_world default_args)) = ''Creating update package v0.1''"
proof -
  have ne: "[''README.md'', ''src/parser.py''] \<noteq> []" by simp
  have e: "dirs (parser_world\<lparr>dirs := [''updates'' \<mapsto> []]\<rparr>) (arg_output default_args) = Some []"
    by (simp add: default_fields)
  show ?thesis
    using scenario_a_archive_name [OF parser_root parser_hyps(1) e parser_hyps(2) ne
        parser_hyps(3) parser_dirs(3)]
    by (simp add: default_fields path_join_def parser_files)
qed

lemma silent_facts:
  "git_rev_parse silent_log_world = Inr (''/home/dev/project'' @ [LF])"
  "makedirs silent_log_world (arg_output default_args)
     = Inr (silent_log_world\<lparr>dirs := [''updates'' \<mapsto> []]\<rparr>)"
  "base_ref_of silent_log_world default_args = ''HEAD~1''"
  "get_changed_files silent_log_world ''HEAD~1'' ''HEAD'' = Inr [''README.md'', ''src/parser.py'']"
  "get_commit_message silent_log_world ''HEAD~1'' ''HEAD'' = []"
  "dirs silent_log_world = Map.empty" "today silent_log_world = ''20240315''"
  "files silent_log_world = files parser_world"
  by (simp_all add: silent_log_world_def parser_world_def makedirs_def parent_dirs_def
      drop_trailing_slashes_def default_fields
      base_ref_of_def py_or_def get_latest_tag_def get_changed_files_def splitlines_def
      is_linebreak_def get_commit_message_def strip_def is_space_def replace_char_def
      LF_def CR_def)

lemma sanitize_label: "sanitize_filename ''HEAD~1_to_HEAD'' = ''HEAD1_to_HEAD''"
  by (simp add: sanitize_filename_def replace_char_def is_safe_char_def Let_def)

text \<open>
  C8 as the program has it. When the change set is not empty and the summary of commit
  subjects is empty, the message that names the archive is the label made of the base,
  \<open>_to_\<close> and the head; the label is put in before the message is cut to 20 characters
  and sanitized.
\<close>

theorem empty_summary_label:
  fixes w :: world and a :: args
  defines "version \<equiv> next_version_of (versions_in
                         (case dirs w (arg_output a) of None \<Rightarrow> [] | Some l \<Rightarrow> l))"
  defines "label \<equiv> base_ref_of w a @ ''_to_'' @ arg_head a"
  assumes "git_rev_parse w = Inr r" and "makedirs w (arg_output a) = Inr w1"
    and "get_changed_files w (base_ref_of w a) (arg_head a) = Inr cs" and "cs \<noteq> []"
    and "get_commit_message w (base_ref_of w a) (arg_head a) = []"
  shows "py_or (Some (get_commit_message w (base_ref_of w a) (arg_head a))) label = label
     \<and> archives (after (main w a))
          (path_join (arg_output a)
             (''update_'' @ format_1f version @ ''_'' @ today w @ ''_''
                @ sanitize_filename (take 20 label) @ ''.zip''))
        = Some (map (\<lambda>f. (f, the (files w f))) cs)"
proof -
  have m: "label = py_or (Some (get_commit_message w (base_ref_of w a) (arg_head a)))
                     (base_ref_of w a @ ''_to_'' @ arg_head a)"
    by (simp add: assms(7) py_or_def label_def)
  have n: "''update_'' @ format_1f version @ ''_'' @ today w @ ''_''
             @ sanitize_filename (take 20 label) @ ''.zip'' = zip_name version (today w) label"
    by (simp add: zip_name_def)
  note b = main_builds(2) [OF assms(3-6) refl version_def [THEN meta_eq_to_obj_eq] m n]
  have 1: "py_or (Some (get_commit_message w (base_ref_of w a) (arg_head a))) label = label"
    by (simp add: assms(7) py_or_def)
  have 2: "archives (after (main w a))
          (path_join (arg_output a)
             (''update_'' @ format_1f version @ ''_'' @ today w @ ''_''
                @ sanitize_filename (take 20 label) @ ''.zip''))
        = Some (map (\<lambda>f. (f, the (files w f))) cs)"
    by (simp only: b fun_upd_same)
  show ?thesis using 1 2 by (rule conjI)
qed

theorem empty_summary_label_witness:
  "get_commit_message silent_log_world (base_ref_of silent_log_world default_args)
      (arg_head default_args) = []
   \<and> archives (after (main silent_log_world default_args))
        ''updates/update_0.1_20240315_HEAD1_to_HEAD.zip''
      = Some [(''README.md'', ''# Parser''), (''src/parser.py'', ''def parse(): pass'')]"
proof -
  have ne: "[''README.md'', ''src/parser.py''] \<noteq> []" by simp
  have c: "get_changed_files silent_log_world (base_ref_of silent_log_world default_args)
      (arg_head default_args) = Inr [''README.md'', ''src/parser.py'']"
    by (simp add: silent_facts default_fields)
  have e: "get_commit_message silent_log_world (base_ref_of silent_log_world default_args)
      (arg_head default_args) = []"
    by (simp add: silent_facts default_fields)
  have p: "path_join (arg_output default_args)
             (''update_'' @ format_1f (next_version_of (versions_in
                (case dirs silent_log_world (arg_output default_args) of
                   None \<Rightarrow> [] | Some l \<Rightarrow> l))) @ ''_'' @ today silent_log_world @ ''_''
                @ sanitize_filename (take 20 (base_ref_of silent_log_world default_args
                     @ ''_to_'' @ arg_head default_args)) @ ''.zip'')
           = ''updates/update_0.1_20240315_HEAD1_to_HEAD.zip''"
    by (simp add: silent_facts default_fields next_version_of_def format_one_tenth
        sanitize_label path_join_def)
  have f: "map (\<lambda>f. (f, the (files silent_log_world f))) [''README.md'', ''src/parser.py'']
      = [(''README.md'', ''# Parser''), (''src/parser.py'', ''def parse(): pass'')]"
    by (simp add: silent_facts parser_files)
  show ?thesis
    using conjunct2 [OF empty_summary_label [OF silent_facts(1) silent_facts(2) c ne e]] e
    by (simp only: p f) 
qed

text \<open>
  C8 as the specification states it fails at its own example: with base and head the
  same reference the change set is empty, so the run ends with the line that no files
  changed before any summary is asked for; the summary would be empty, but no label is
  made and no archive is named.
\<close>

theorem same_refs_name_nothing:
  "base_ref_of unchanged_world (default_args\<lparr>arg_base := Some ''HEAD''\<rparr>) = ''HEAD''
   \<and> arg_head (default_args\<lparr>arg_base := Some ''HEAD''\<rparr>) = ''HEAD''
   \<and> get_commit_message unchanged_world ''HEAD'' ''HEAD'' = []
   \<and> outcome (main unchanged_world (default_args\<lparr>arg_base := Some ''HEAD''\<rparr>)) = Returned
   \<and> printed (main unchanged_world (default_args\<lparr>arg_base := Some ''HEAD''\<rparr>))
       = [''No changed files found between HEAD and HEAD'']
   \<and> archives (after (main unchanged_world (default_args\<lparr>arg_base := Some ''HEAD''\<rparr>)))
       = Map.empty"
proof -
  let ?a = "default_args\<lparr>arg_base := Some ''HEAD''\<rparr>"
  have f: "arg_output ?a = ''updates''" "arg_head ?a = ''HEAD''"
    by (simp_all add: default_fields)
  have b: "base_ref_of unchanged_world ?a = ''HEAD''"
    by (simp add: base_ref_of_def py_or_def)
  have e: "get_commit_message unchanged_world ''HEAD'' ''HEAD'' = []"
    by (simp add: get_commit_message_def unchanged_world_def parser_world_def strip_def
        replace_char_def)
  have mk: "makedirs unchanged_world (arg_output ?a)
      = Inr (unchanged_world\<lparr>dirs := [''updates'' \<mapsto> []]\<rparr>)"
    by (simp only: f unchanged_makedirs)
  have c: "get_changed_files unchanged_world (base_ref_of unchanged_world ?a) (arg_head ?a)
      = Inr []"
    by (simp add: b f get_changed_files_def unchanged_world_def parser_world_def
        splitlines_def)
  have a: "archives unchanged_world = Map.empty"
    by (simp add: unchanged_world_def parser_world_def)
  have m: "main unchanged_world ?a
      = \<lparr>outcome = Returned,
         printed = [''No changed files found between '' @ base_ref_of unchanged_world ?a
                      @ '' and '' @ arg_head ?a],
         after = unchanged_world\<lparr>dirs := [''updates'' \<mapsto> []]\<rparr>\<rparr>"
    using unchanged_root mk c by (rule main_no_changes)
  show ?thesis using b f(2) e by (simp add: m a)
qed

section \<open>Failing queries and the default base\<close>

lemma log_fails_facts:
  "git_rev_parse log_fails_world = Inr (''/home/dev/project'' @ [LF])"
  "makedirs log_fails_world (arg_output default_args)
     = Inr (log_fails_world\<lparr>dirs := [''updates'' \<mapsto> []]\<rparr>)"
  "base_ref_of log_fails_world default_args = ''HEAD~1''"
  "get_changed_files log_fails_world ''HEAD~1'' ''HEAD'' = Inr [''README.md'', ''src/parser.py'']"
  "git_log log_fails_world ''HEAD~1..HEAD'' = Inl exit_128"
  "get_commit_message log_fails_world ''HEAD~1'' ''HEAD'' = []"
  "dirs log_fails_world = Map.empty" "today log_fails_world = ''20240315''"
  "files log_fails_world = files parser_world" "archive_size log_fails_world = (\<lambda>es. 310)"
  by (simp_all add: log_fails_world_def parser_world_def makedirs_def parent_dirs_def
      drop_trailing_slashes_def default_fields
      base_ref_of_def py_or_def get_latest_tag_def get_changed_files_def splitlines_def
      is_linebreak_def get_commit_message_def LF_def CR_def)

lemma diff_fails_facts:
  "git_rev_parse diff_fails_world = Inr (''/home/dev/project'' @ [LF])"
  "makedirs diff_fails_world (arg_output default_args)
     = Inr (diff_fails_world\<lparr>dirs := [''updates'' \<mapsto> []]\<rparr>)"
  "base_ref_of diff_fails_world default_args = ''HEAD~1''"
  "git_diff diff_fails_world ''HEAD~1..HEAD'' = Inl exit_128"
  "archives diff_fails_world = Map.empty"
  by (simp_all add: diff_fails_world_def parser_world_def makedirs_def parent_dirs_def
      drop_trailing_slashes_def default_fields
      base_ref_of_def py_or_def get_latest_tag_def)

lemma size_line: "format_1f (round_double 310 1024) = ''0.3''"
proof -
  have "round_double 310 1024 = Finite 5453577673768960 (- 54)"
    by (simp add: float_eval)
  then show ?thesis
    by (simp add: mul_pow2_def round_half_even_def Let_def digits_of.simps digit_char_def)
qed

lemma get_commit_message_fails:
  "git_log w (b @ ''..'' @ h) = Inl e \<Longrightarrow> get_commit_message w b h = []"
  by (simp add: get_commit_message_def)

text \<open>
  C1 as the program has it. A failure of the changed-files query is fatal: the run
  prints \<open>Error running git diff:\<close> with the text of the error and ends with exit
  status 1, no archive written. A failure of the commit-subject query is not: the
  summary is taken as empty, the label of base and head stands in, and the run builds
  its archive and returns.
\<close>

theorem query_failure_handling:
  fixes w :: world and a :: args
  defines "query \<equiv> base_ref_of w a @ ''..'' @ arg_head a"
  defines "version \<equiv> next_version_of (versions_in
                         (case dirs w (arg_output a) of None \<Rightarrow> [] | Some l \<Rightarrow> l))"
  defines "label \<equiv> base_ref_of w a @ ''_to_'' @ arg_head a"
  assumes "git_rev_parse w = Inr r" and "makedirs w (arg_output a) = Inr w1"
  shows "(\<forall>e. git_diff w query = Inl e \<longrightarrow>
            outcome (main w a) = SysExit 1
            \<and> printed (main w a) = [''Error running git diff: '' @ e]
            \<and> archives (after (main w a)) = archives w)
     \<and> (\<forall>e cs. git_log w query = Inl e \<longrightarrow>
            get_changed_files w (base_ref_of w a) (arg_head a) = Inr cs \<longrightarrow> cs \<noteq> [] \<longrightarrow>
            outcome (main w a) = Returned
            \<and> archives (after (main w a))
                 (path_join (arg_output a) (zip_name version (today w) label))
               = Some (map (\<lambda>f. (f, the (files w f))) cs))"
proof (intro conjI allI impI)
  fix e assume "git_diff w query = Inl e"
  then have m: "main w a
      = \<lparr>outcome = SysExit 1, printed = [''Error running git diff: '' @ e], after = w1\<rparr>"
    unfolding query_def by (rule main_diff_fails [OF assms(4,5)])
  show "outcome (main w a) = SysExit 1" by (simp add: m)
  show "printed (main w a) = [''Error running git diff: '' @ e]" by (simp add: m)
  show "archives (after (main w a)) = archives w"
    by (simp add: m makedirs_keeps(6) [OF assms(5)])
next
  fix e cs
  assume lg: "git_log w query = Inl e"
    and cs: "get_changed_files w (base_ref_of w a) (arg_head a) = Inr cs" "cs \<noteq> []"
  have empty: "get_commit_message w (base_ref_of w a) (arg_head a) = []"
    using lg unfolding query_def by (rule get_commit_message_fails)
  have m: "label = py_or (Some (get_commit_message w (base_ref_of w a) (arg_head a)))
                     (base_ref_of w a @ ''_to_'' @ arg_head a)"
    by (simp add: empty py_or_def label_def)
  note b = main_builds [OF assms(4,5) cs refl version_def [THEN meta_eq_to_obj_eq] m refl]
  show "outcome (main w a) = Returned" by (rule b(1))
  show "archives (after (main w a)) (path_join (arg_output a) (zip_name version (today w) label))
      = Some (map (\<lambda>f. (f, the (files w f))) cs)"
    by (simp only: b(2) fun_upd_same)
qed

theorem query_failure_handling_witness:
  "git_diff diff_fails_world ''HEAD~1..HEAD'' = Inl exit_128
   \<and> outcome (main diff_fails_world default_args) = SysExit 1
   \<and> printed (main diff_fails_world default_args) = [''Error running git diff: '' @ exit_128]
   \<and> archives (after (main diff_fails_world default_args)) = Map.empty
   \<and> git_log log_fails_world ''HEAD~1..HEAD'' = Inl exit_128
   \<and> outcome (main log_fails_world default_args) = Returned"
proof -
  have q: "base_ref_of diff_fails_world default_args @ ''..'' @ arg_head default_args
      = ''HEAD~1..HEAD''"
    by (simp add: diff_fails_facts default_fields)
  have q': "base_ref_of log_fails_world default_args @ ''..'' @ arg_head default_args
      = ''HEAD~1..HEAD''"
    by (simp add: log_fails_facts default_fields)
  have c: "get_changed_files log_fails_world (base_ref_of log_fails_world default_args)
      (arg_head default_args) = Inr [''README.md'', ''src/parser.py'']"
    by (simp add: log_fails_facts default_fields)
  have ne: "[''README.md'', ''src/parser.py''] \<noteq> []" by simp
  note d = conjunct1 [OF query_failure_handling [OF diff_fails_facts(1) diff_fails_facts(2)],
      unfolded q, rule_format, OF diff_fails_facts(4)]
  note l = conjunct2 [OF query_failure_handling [OF log_fails_facts(1) log_fails_facts(2)],
      unfolded q', rule_format, OF log_fails_facts(5) c ne]
  show ?thesis
    using d l diff_fails_facts(4,5) log_fails_facts(5) by simp
qed

text \<open>
  C1 as the specification states it fails: when \<open>git log\<close> fails the run is not ended.
  It prints no diagnostic, writes the archive and returns with exit status 0.
\<close>

theorem log_failure_not_fatal:
  "git_log log_fails_world ''HEAD~1..HEAD'' = Inl exit_128
   \<and> exit_status (outcome (main log_fails_world default_args)) = 0
   \<and> printed (main log_fails_world default_args)
       = [''Creating update package v0.1'', ''Changes from HEAD~1 to HEAD'', ''Files count: 2'',
          ''Added: README.md'', ''Added: src/parser.py'',
          LF # ''Update package created: updates/update_0.1_20240315_HEAD1_to_HEAD.zip'',
          ''Size: 0.3 KB'']
   \<and> archives (after (main log_fails_world default_args))
         ''updates/update_0.1_20240315_HEAD1_to_HEAD.zip''
       = Some [(''README.md'', ''# Parser''), (''src/parser.py'', ''def parse(): pass'')]"
proof -
  have c: "get_changed_files log_fails_world (base_ref_of log_fails_world default_args)
      (arg_head default_args) = Inr [''README.md'', ''src/parser.py'']"
    by (simp add: log_fails_facts default_fields)
  have ne: "[''README.md'', ''src/parser.py''] \<noteq> []" by simp
  have l: "[] = (case dirs log_fails_world (arg_output default_args) of
                   None \<Rightarrow> [] | Some l \<Rightarrow> l)"
    by (simp add: log_fails_facts)
  have v: "one_tenth = next_version_of (versions_in [])"
    by (simp add: next_version_of_def)
  have m: "''HEAD~1_to_HEAD''
      = py_or (Some (get_commit_message log_fails_world
                 (base_ref_of log_fails_world default_args) (arg_head default_args)))
          (base_ref_of log_fails_world default_args @ ''_to_'' @ arg_head default_args)"
    by (simp add: log_fails_facts default_fields py_or_def)
  have n: "''update_0.1_20240315_HEAD1_to_HEAD.zip''
      = zip_name one_tenth (today log_fails_world) ''HEAD~1_to_HEAD''"
    by (simp add: zip_name_def format_one_tenth sanitize_label log_fails_facts)
  note b = main_builds [OF log_fails_facts(1) log_fails_facts(2) c ne l v m n]
  have 1: "exit_status (outcome (main log_fails_world default_args)) = 0"
    by (simp add: b(1))
  have 2: "printed (main log_fails_world default_args)
       = [''Creating update package v0.1'', ''Changes from HEAD~1 to HEAD'', ''Files count: 2'',
          ''Added: README.md'', ''Added: src/parser.py'',
          LF # ''Update package created: updates/update_0.1_20240315_HEAD1_to_HEAD.zip'',
          ''Size: 0.3 KB'']"
    by (simp add: b(5) format_one_tenth log_fails_facts default_fields size_line
        digits_of.simps digit_char_def path_join_def)
  have 3: "archives (after (main log_fails_world default_args))
         ''updates/update_0.1_20240315_HEAD1_to_HEAD.zip''
       = Some [(''README.md'', ''# Parser''), (''src/parser.py'', ''def parse(): pass'')]"
    by (simp add: b(2) default_fields path_join_def log_fails_facts parser_files)
  show ?thesis using log_fails_facts(5) 1 2 3 by simp
qed

lemma tagged_tag: "get_latest_tag tagged_world = Some ''v1.2''"
  by (simp add: get_latest_tag_def tagged_world_def parser_world_def strip_def is_space_def
      LF_def)

lemma feature_facts:
  "git_rev_parse feature_world = Inr (''/home/dev/project'' @ [LF])"
  "git_describe feature_world = Inl exit_128"
  "makedirs feature_world ''updates''
     = Inr (feature_world\<lparr>dirs := [''updates'' \<mapsto> []]\<rparr>)"
  "get_changed_files feature_world ''HEAD~1'' ''feature'' = Inr []"
  "git_diff feature_world ''feature~1..feature'' = Inl exit_128"
  by (simp_all add: feature_world_def parser_world_def makedirs_def parent_dirs_def
      drop_trailing_slashes_def get_changed_files_def
      splitlines_def)

text \<open>
  C2 as the program has it. When no base is given, the base is the latest tag that
  \<open>git describe\<close> prints, if it prints one, and otherwise the fixed reference \<open>HEAD~1\<close>,
  the commit before the current checkout, whatever the head reference is.
\<close>

theorem default_base_resolution:
  "arg_base a = None \<Longrightarrow>
   base_ref_of w a
     = (case git_describe w of
          Inr out \<Rightarrow> if strip out = [] then ''HEAD~1'' else strip out
        | Inl e \<Rightarrow> ''HEAD~1'')
   \<and> base_ref_of w (a\<lparr>arg_head := h\<rparr>) = base_ref_of w a"
  by (simp add: base_ref_of_def py_or_def get_latest_tag_def split: sum.splits)

theorem default_base_resolution_witness:
  "arg_base default_args = None
   \<and> base_ref_of tagged_world default_args = ''v1.2''
   \<and> base_ref_of parser_world default_args = ''HEAD~1''
   \<and> base_ref_of parser_world (default_args\<lparr>arg_head := ''feature''\<rparr>) = ''HEAD~1''"
proof -
  have n: "arg_base default_args = None" by (simp add: default_fields)
  have t: "git_describe tagged_world = Inr (''v1.2'' @ [LF])"
    by (simp add: tagged_world_def parser_world_def)
  have s: "strip (''v1.2'' @ [LF]) = ''v1.2''" by (simp add: strip_def is_space_def LF_def)
  have p: "git_describe parser_world = Inl exit_128" by (simp add: parser_world_def)
  have 1: "base_ref_of tagged_world default_args = ''v1.2''"
    using conjunct1 [OF default_base_resolution [OF n, of tagged_world]]
    by (simp only: t s sum.case) simp
  have 2: "base_ref_of parser_world default_args = ''HEAD~1''"
    using conjunct1 [OF default_base_resolution [OF n, of parser_world]]
    by (simp only: p sum.case)
  have 3: "base_ref_of parser_world (default_args\<lparr>arg_head := ''feature''\<rparr>) = ''HEAD~1''"
    using conjunct2 [OF default_base_resolution [OF n, of parser_world "''feature''"]] 2
    by simp
  show ?thesis using n 1 2 3 by simp
qed

text \<open>
  C2 as the specification states it fails: with the head \<open>feature\<close>, no base and no tag,
  the base is \<open>HEAD~1\<close>, not the parent of \<open>feature\<close>, and the diff that is asked of git
  is the one from \<open>HEAD~1\<close> to \<open>feature\<close>.
\<close>

theorem base_is_not_parent_of_head:
  "arg_base (default_args\<lparr>arg_head := ''feature''\<rparr>) = None
   \<and> get_latest_tag feature_world = None
   \<and> base_ref_of feature_world (default_args\<lparr>arg_head := ''feature''\<rparr>) = ''HEAD~1''
   \<and> base_ref_of feature_world (default_args\<lparr>arg_head := ''feature''\<rparr>) \<noteq> ''feature~1''
   \<and> printed (main feature_world (default_args\<lparr>arg_head := ''feature''\<rparr>))
       = [''No changed files found between HEAD~1 and feature'']"
proof -
  let ?a = "default_args\<lparr>arg_head := ''feature''\<rparr>"
  have f: "arg_output ?a = ''updates''" "arg_head ?a = ''feature''" "arg_base ?a = None"
    by (simp_all add: default_fields)
  have t: "get_latest_tag feature_world = None"
    by (simp add: get_latest_tag_def feature_facts)
  have b: "base_ref_of feature_world ?a = ''HEAD~1''"
    by (simp add: base_ref_of_def py_or_def t f)
  have mk: "makedirs feature_world (arg_output ?a)
      = Inr (feature_world\<lparr>dirs := [''updates'' \<mapsto> []]\<rparr>)"
    by (simp only: f feature_facts)
  have c: "get_changed_files feature_world (base_ref_of feature_world ?a) (arg_head ?a) = Inr []"
    by (simp only: b f feature_facts)
  have p: "printed (main feature_world ?a)
      = [''No changed files found between HEAD~1 and feature'']"
    by (simp add: main_no_changes [OF feature_facts(1) mk c] b f)
  show ?thesis using f(3) t b p by simp
qed

section \<open>Rounding to the nearest float\<close>

text \<open>
  What \<open>round_double\<close> returns for a quotient is a number of the binary64 format, at
  most half a unit of its last place away from the quotient.
\<close>

lemma round_half_even_near:
  assumes "0 < d"
  shows "\<bar>(of_nat (round_half_even n d) :: rat) - of_nat n / of_nat d\<bar> \<le> 1 / 2"
proof -
  let ?f = "n div d" and ?r = "n mod d"
  have d: "(0::rat) < of_nat d" using assms by simp
  have "n = ?f * d + ?r" by simp
  then have "(of_nat n :: rat) = of_nat ?f * of_nat d + of_nat ?r"
    by (metis of_nat_add of_nat_mult)
  then have q: "(of_nat n :: rat) / of_nat d = of_nat ?f + of_nat ?r / of_nat d"
    using d by (simp add: field_simps)
  have r: "?r < d" using assms by simp
  consider "2 * ?r < d" | "d < 2 * ?r" | "2 * ?r = d" by linarith
  then show ?thesis
  proof cases
    case 1
    then have "(of_nat (2 * ?r) :: rat) < of_nat d" by (simp only: of_nat_less_iff)
    then have "(of_nat ?r :: rat) / of_nat d < 1 / 2" using d by (simp add: field_simps)
    moreover have "(0::rat) \<le> of_nat ?r / of_nat d" by simp
    moreover have "round_half_even n d = ?f" using 1 by (simp add: round_half_even_def Let_def)
    ultimately show ?thesis using q by simp
  next
    case 2
    then have "(of_nat d :: rat) < of_nat (2 * ?r)" by (simp only: of_nat_less_iff)
    then have "1 / 2 < (of_nat ?r :: rat) / of_nat d" using d by (simp add: field_simps)
    moreover have "(of_nat ?r :: rat) / of_nat d < 1" using r d by simp
    moreover have "round_half_even n d = ?f + 1" using 2 by (simp add: round_half_even_def Let_def)
    ultimately show ?thesis using q by simp
  next
    case 3
    then have "(of_nat (2 * ?r) :: rat) = of_nat d" by simp
    then have h: "(of_nat ?r :: rat) / of_nat d = 1 / 2" using d by (simp add: field_simps)
    have "round_half_even n d = ?f \<or> round_half_even n d = ?f + 1"
      using 3 by (simp add: round_half_even_def Let_def)
    then show ?thesis using q h by auto
  qed
qed

lemma mul_pow2_quotient:
  assumes "0 < d"
  shows "(of_nat (mul_pow2 n (- p)) :: rat) / of_nat (mul_pow2 d p)
           = of_nat n / of_nat d * 2 powi (- p)"
proof (cases "0 \<le> p")
  case True
  then have "mul_pow2 n (- p) = n" "mul_pow2 d p = d * 2 ^ nat p"
    by (simp_all add: mul_pow2_def)
  moreover have "(2::rat) powi (- p) = 1 / 2 ^ nat p"
    using True by (simp add: power_int_minus power_int_def field_simps)
  ultimately show ?thesis by simp
next
  case False
  then have "mul_pow2 n (- p) = n * 2 ^ nat (- p)" "mul_pow2 d p = d"
    by (simp_all add: mul_pow2_def)
  moreover have "(2::rat) powi (- p) = 2 ^ nat (- p)"
    using False by (simp add: power_int_def)
  ultimately show ?thesis by simp
qed

lemma round_double_near:
  assumes "0 < d" and "round_double n d = Finite m p"
  shows "\<bar>finite_value m p - of_nat n / of_nat d\<bar> \<le> 2 powi p / 2"
proof (cases "n = 0")
  case True
  then show ?thesis using assms(2) by (auto simp: round_double_def finite_value_def)
next
  case False
  define k where "k = int (bit_length n) - int (bit_length d)"
  define e where "e = (if mul_pow2 d k \<le> mul_pow2 n (- k) then k else k - 1)"
  define p0 where "p0 = max e (- 1022) - 52"
  define m0 where "m0 = round_half_even (mul_pow2 n (- p0)) (mul_pow2 d p0)"
  have rd: "round_double n d
      = (let (m', p') = (if m0 = 2 ^ 53 then (2 ^ 52, p0 + 1) else (m0, p0))
         in if 971 < p' then PosInf else Finite m' p')"
    unfolding round_double_def k_def e_def p0_def m0_def Let_def
    using False by (simp only: if_False)
  have pos: "0 < mul_pow2 d p0" using assms(1) by (simp add: mul_pow2_def)
  have "\<bar>(of_nat m0 :: rat) - of_nat n / of_nat d * 2 powi (- p0)\<bar> \<le> 1 / 2"
    using round_half_even_near [OF pos, of "mul_pow2 n (- p0)"]
    by (simp only: m0_def mul_pow2_quotient [OF assms(1)])
  then have A: "\<bar>(of_nat m0 :: rat) - of_nat n / of_nat d * 2 powi (- p0)\<bar> * 2 powi p0
      \<le> 1 / 2 * 2 powi p0"
    by (intro mult_right_mono) simp_all
  have B: "\<bar>(of_nat m0 :: rat) - of_nat n / of_nat d * 2 powi (- p0)\<bar> * 2 powi p0
      = \<bar>of_nat m0 * 2 powi p0 - of_nat n / of_nat d\<bar>"
  proof -
    have "(2::rat) powi (- p0) * 2 powi p0 = 1"
      by (simp add: power_int_minus)
    then have "((of_nat m0 :: rat) - of_nat n / of_nat d * 2 powi (- p0)) * 2 powi p0
        = of_nat m0 * 2 powi p0 - of_nat n / of_nat d"
      by (simp add: algebra_simps)
    moreover have "\<bar>(of_nat m0 :: rat) - of_nat n / of_nat d * 2 powi (- p0)\<bar> * 2 powi p0
        = \<bar>((of_nat m0 :: rat) - of_nat n / of_nat d * 2 powi (- p0)) * 2 powi p0\<bar>"
      by (simp add: abs_mult)
    ultimately show ?thesis by (simp only:)
  qed
  have "\<bar>(of_nat m0 :: rat) * 2 powi p0 - of_nat n / of_nat d\<bar> \<le> 1 / 2 * 2 powi p0"
    using A unfolding B .
  then have near: "\<bar>finite_value m0 p0 - of_nat n / of_nat d\<bar> \<le> 2 powi p0 / 2"
    by (simp add: finite_value_def)
  show ?thesis
  proof (cases "m0 = 2 ^ 53")
    case True
    then have mp: "m = 2 ^ 52" "p = p0 + 1"
      using assms(2) unfolding rd by (simp_all split: if_splits)
    have "finite_value m p = finite_value m0 p0"
      by (simp add: mp True finite_value_def power_int_add)
    moreover have "(2::rat) powi p0 / 2 \<le> 2 powi p / 2"
      by (simp add: mp power_int_add)
    ultimately show ?thesis using near by simp
  next
    case F: False
    then have "m = m0" "p = p0"
      using assms(2) unfolding rd by (simp_all split: if_splits)
    then show ?thesis using near by simp
  qed
qed

lemma bit_length_bounds:
  "0 < n \<Longrightarrow> 2 ^ (bit_length n - 1) \<le> n \<and> n < 2 ^ bit_length n"
proof (induction n rule: bit_length.induct)
  case (1 n)
  show ?case
  proof (cases "n div 2 = 0")
    case True
    then have "n = 1" using "1.prems" by linarith
    then show ?thesis by (simp add: bit_length.simps)
  next
    case False
    let ?b = "bit_length (n div 2)"
    have ih: "2 ^ (?b - 1) \<le> n div 2" "n div 2 < 2 ^ ?b"
      using "1.IH" "1.prems" False by simp_all
    have b: "0 < ?b" using False by (simp add: bit_length.simps [of "n div 2"])
    have bl: "bit_length n = ?b + 1" using "1.prems" by (simp add: bit_length.simps [of n])
    have "(2::nat) ^ ?b = 2 * 2 ^ (?b - 1)" using b by (cases ?b) simp_all
    then have lo: "2 ^ ?b \<le> n" using ih(1) by linarith
    have "n < 2 * 2 ^ ?b" using ih(2) by linarith
    then show ?thesis using lo by (simp add: bl)
  qed
qed

lemma bit_length_rat:
  assumes "0 < n"
  shows "(2::rat) powi (int (bit_length n) - 1) \<le> of_nat n"
    and "(of_nat n :: rat) < 2 powi int (bit_length n)"
proof -
  have b: "0 < bit_length n" using assms by (simp add: bit_length.simps [of n])
  then have i: "int (bit_length n) - 1 = int (bit_length n - 1)" by simp
  have "(of_nat (2 ^ (bit_length n - 1)) :: rat) \<le> of_nat n"
    using bit_length_bounds [OF assms] by (simp only: of_nat_le_iff)
  then show "(2::rat) powi (int (bit_length n) - 1) \<le> of_nat n"
    by (simp only: i power_int_of_nat) simp
  have "(of_nat n :: rat) < of_nat (2 ^ bit_length n)"
    using bit_length_bounds [OF assms] by (simp only: of_nat_less_iff)
  then show "(of_nat n :: rat) < 2 powi int (bit_length n)"
    by (simp only: power_int_of_nat) simp
qed

lemma mul_pow2_test:
  assumes "0 < d"
  shows "mul_pow2 d k \<le> mul_pow2 n (- k) \<longleftrightarrow> (2::rat) powi k \<le> of_nat n / of_nat d"
proof -
  have d: "(0::rat) < of_nat d" using assms by simp
  have "mul_pow2 d k \<le> mul_pow2 n (- k)
      \<longleftrightarrow> (of_nat (mul_pow2 d k) :: rat) \<le> of_nat (mul_pow2 n (- k))"
    by (simp only: of_nat_le_iff)
  also have "\<dots> \<longleftrightarrow> (1::rat) \<le> of_nat (mul_pow2 n (- k)) / of_nat (mul_pow2 d k)"
    using assms by (simp add: mul_pow2_def field_simps)
  also have "\<dots> \<longleftrightarrow> (1::rat) \<le> of_nat n / of_nat d * 2 powi (- k)"
    by (simp only: mul_pow2_quotient [OF assms])
  also have "\<dots> \<longleftrightarrow> (1::rat) \<le> of_nat n / of_nat d / 2 powi k"
    by (simp add: power_int_minus divide_inverse)
  also have "\<dots> \<longleftrightarrow> (2::rat) powi k \<le> of_nat n / of_nat d"
    by (subst pos_le_divide_eq) simp_all
  finally show ?thesis .
qed

lemma leading_exponent:
  assumes "0 < n" "0 < d"
  defines "k \<equiv> int (bit_length n) - int (bit_length d)"
  defines "e \<equiv> (if mul_pow2 d k \<le> mul_pow2 n (- k) then k else k - 1)"
  shows "(2::rat) powi e \<le> of_nat n / of_nat d" and "(of_nat n :: rat) / of_nat d < 2 powi (e + 1)"
proof -
  let ?q = "(of_nat n :: rat) / of_nat d"
  have d: "(0::rat) < of_nat d" using assms(2) by simp
  note bn = bit_length_rat [OF assms(1)] and bd = bit_length_rat [OF assms(2)]
  have up: "?q < 2 powi (k + 1)"
  proof -
    have "?q < 2 powi int (bit_length n) / of_nat d"
      using bn(2) d by (simp add: divide_strict_right_mono)
    also have "\<dots> \<le> 2 powi int (bit_length n) / 2 powi (int (bit_length d) - 1)"
      using bd(1) d by (intro divide_left_mono) simp_all
    also have "\<dots> = 2 powi (int (bit_length n) - (int (bit_length d) - 1))"
      by (rule power_int_diff [symmetric]) simp
    also have "int (bit_length n) - (int (bit_length d) - 1) = k + 1"
      by (simp add: k_def)
    finally show ?thesis .
  qed
  have lo: "2 powi (k - 1) \<le> ?q"
  proof -
    have "k - 1 = int (bit_length n) - 1 - int (bit_length d)"
      by (simp add: k_def)
    then have "(2::rat) powi (k - 1) = 2 powi (int (bit_length n) - 1 - int (bit_length d))"
      by (simp only:)
    also have "\<dots> = 2 powi (int (bit_length n) - 1) / 2 powi int (bit_length d)"
      by (rule power_int_diff) simp
    also have "\<dots> \<le> of_nat n / 2 powi int (bit_length d)"
      using bn(1) by (intro divide_right_mono) simp_all
    also have "\<dots> \<le> ?q"
      using bd(2) d by (intro divide_left_mono) simp_all
    finally show ?thesis .
  qed
  show "(2::rat) powi e \<le> ?q"
    using lo mul_pow2_test [OF assms(2), of k n] by (simp add: e_def)
  show "?q < 2 powi (e + 1)"
    using up mul_pow2_test [OF assms(2), of k n] by (simp add: e_def)
qed


lemma round_double_precise:
  assumes "0 < n" "0 < d" and "round_double n d = Finite m p"
  shows "m < 2 ^ 53" and "- 1074 \<le> p" and "p \<le> 971" and "2 ^ 52 \<le> m \<or> p = - 1074"
proof -
  define k where "k = int (bit_length n) - int (bit_length d)"
  define e where "e = (if mul_pow2 d k \<le> mul_pow2 n (- k) then k else k - 1)"
  define p0 where "p0 = max e (- 1022) - 52"
  define m0 where "m0 = round_half_even (mul_pow2 n (- p0)) (mul_pow2 d p0)"
  let ?q = "(of_nat n :: rat) / of_nat d"
  let ?x = "?q * 2 powi (- p0)"
  have rd: "round_double n d
      = (let (m', p') = (if m0 = 2 ^ 53 then (2 ^ 52, p0 + 1) else (m0, p0))
         in if 971 < p' then PosInf else Finite m' p')"
    unfolding round_double_def k_def e_def p0_def m0_def Let_def
    using assms(1) by (simp only: if_False less_numeral_extra(3) neq0_conv [symmetric])
  have e: "(2::rat) powi e \<le> ?q" "?q < 2 powi (e + 1)"
    using leading_exponent [OF assms(1,2)] unfolding k_def e_def by simp_all
  have pos: "0 < mul_pow2 d p0" using assms(2) by (simp add: mul_pow2_def)
  have near: "\<bar>(of_nat m0 :: rat) - ?x\<bar> \<le> 1 / 2"
    using round_half_even_near [OF pos, of "mul_pow2 n (- p0)"]
    by (simp only: m0_def mul_pow2_quotient [OF assms(2)])
  have sc: "(0::rat) < 2 powi (- p0)" by simp
  have hi: "?x < 2 ^ 53"
  proof -
    have "?x < 2 powi (e + 1) * 2 powi (- p0)"
      using e(2) sc by (simp only: mult_strict_right_mono)
    also have "\<dots> = 2 powi (e + 1 - p0)"
      by (simp add: power_int_add [symmetric])
    also have "\<dots> \<le> 2 powi 53"
      by (intro power_int_increasing) (simp_all add: p0_def)
    finally show ?thesis by simp
  qed
  have lo: "2 ^ 52 \<le> ?x" if "- 1022 \<le> e"
  proof -
    have "(2::rat) powi 52 = 2 powi (e - p0)" using that by (simp add: p0_def)
    also have "\<dots> = 2 powi e * 2 powi (- p0)"
      by (simp add: power_int_add [symmetric])
    also have "\<dots> \<le> ?x"
      using e(1) sc by (simp only: mult_right_mono less_imp_le)
    finally show ?thesis by simp
  qed
  have m_hi: "m0 \<le> 2 ^ 53"
  proof -
    have "(of_nat m0 :: rat) < 2 ^ 53 + 1" using near hi by linarith
    then have "(of_nat m0 :: rat) < of_nat (2 ^ 53 + 1)" by simp
    then have "m0 < 2 ^ 53 + 1" by (simp only: of_nat_less_iff)
    then show ?thesis by simp
  qed
  have m_lo: "2 ^ 52 \<le> m0" if "- 1022 \<le> e"
  proof -
    have "(2 ^ 52 - 1 :: rat) < of_nat m0" using near lo [OF that] by linarith
    then have "(of_nat (2 ^ 52 - 1) :: rat) < of_nat m0" by simp
    then have "2 ^ 52 - 1 < m0" by (simp only: of_nat_less_iff)
    then show ?thesis by simp
  qed
  have sub: "p0 = - 1074" if "\<not> - 1022 \<le> e" using that by (simp add: p0_def)
  have p0: "- 1074 \<le> p0" by (simp add: p0_def)
  show "m < 2 ^ 53" "- 1074 \<le> p" "p \<le> 971" "2 ^ 52 \<le> m \<or> p = - 1074"
    using assms(3) m_hi m_lo sub p0 unfolding rd
    by (auto split: if_splits)
qed

section \<open>The next version\<close>

lemma pow2_nat: "0 \<le> k \<Longrightarrow> (2::rat) ^ nat k = 2 powi k"
  by (simp add: power_int_def)

lemma finite_value_shift:
  assumes "e \<le> e1"
  shows "of_nat (m * 2 ^ nat (e1 - e)) * (2::rat) powi e = finite_value m e1"
proof -
  have "(2::rat) ^ nat (e1 - e) * 2 powi e = 2 powi ((e1 - e) + e)"
    using assms by (simp only: pow2_nat [of "e1 - e"] diff_ge_0_iff_ge) (subst power_int_add, simp_all)
  then show ?thesis by (simp add: finite_value_def mult.assoc)
qed

lemma fless_iff_value:
  "fless (Finite m1 e1) (Finite m2 e2) \<longleftrightarrow> finite_value m1 e1 < finite_value m2 e2"
proof -
  let ?e = "min e1 e2"
  have pos: "(0::rat) < 2 powi ?e" by simp
  have "fless (Finite m1 e1) (Finite m2 e2)
      \<longleftrightarrow> (of_nat (m1 * 2 ^ nat (e1 - ?e)) :: rat) < of_nat (m2 * 2 ^ nat (e2 - ?e))"
    by (simp only: fless.simps Let_def of_nat_less_iff)
  also have "\<dots> \<longleftrightarrow> of_nat (m1 * 2 ^ nat (e1 - ?e)) * (2::rat) powi ?e
                    < of_nat (m2 * 2 ^ nat (e2 - ?e)) * 2 powi ?e"
    using pos by (simp only: mult_less_cancel_right_pos)
  also have "\<dots> \<longleftrightarrow> finite_value m1 e1 < finite_value m2 e2"
    by (simp only: finite_value_shift [of ?e e1 m1, OF min.cobounded1]
        finite_value_shift [of ?e e2 m2, OF min.cobounded2])
  finally show ?thesis .
qed

lemma fless_irrefl: "\<not> fless x x"
  by (cases x) (simp_all add: fless_iff_value del: fless.simps(1))

lemma fless_trans: "fless x y \<Longrightarrow> fless y z \<Longrightarrow> fless x z"
  by (cases x; cases y; cases z) (auto simp: fless_iff_value simp del: fless.simps(1))

lemma py_max_greatest:
  "py_max x xs \<in> set (x # xs) \<and> (\<forall>v \<in> set (x # xs). \<not> fless (py_max x xs) v)"
  unfolding py_max_def
proof (induction xs arbitrary: x rule: rev_induct)
  case Nil
  then show ?case by (simp add: fless_irrefl)
next
  case (snoc y ys)
  let ?m = "foldl (\<lambda>m v. if fless m v then v else m) x ys"
  have ih: "?m \<in> set (x # ys)" "\<forall>v \<in> set (x # ys). \<not> fless ?m v"
    using snoc.IH by blast+
  show ?case
  proof (cases "fless ?m y")
    case True
    have "\<not> fless y v" if "v \<in> set (x # ys)" for v
      using ih(2) that True fless_trans by blast
    then show ?thesis using True by (auto simp: fless_irrefl)
  next
    case False
    then show ?thesis using ih by auto
  qed
qed

lemma round_double_small:
  assumes "0 < d" and "(of_nat n :: rat) / of_nat d < 2 ^ 41"
  shows "\<exists>m p. round_double n d = Finite m p \<and> p \<le> - 11"
proof (cases "n = 0")
  case True
  then show ?thesis by (simp add: round_double_def)
next
  case False
  define k where "k = int (bit_length n) - int (bit_length d)"
  define e where "e = (if mul_pow2 d k \<le> mul_pow2 n (- k) then k else k - 1)"
  define p0 where "p0 = max e (- 1022) - 52"
  define m0 where "m0 = round_half_even (mul_pow2 n (- p0)) (mul_pow2 d p0)"
  have rd: "round_double n d
      = (let (m', p') = (if m0 = 2 ^ 53 then (2 ^ 52, p0 + 1) else (m0, p0))
         in if 971 < p' then PosInf else Finite m' p')"
    unfolding round_double_def k_def e_def p0_def m0_def Let_def
    using False by (simp only: if_False)
  have n: "0 < n" using False by simp
  have lo: "(2::rat) powi e \<le> of_nat n / of_nat d"
    using leading_exponent(1) [OF n assms(1)] unfolding k_def e_def by simp
  have "e \<le> 40"
  proof (rule ccontr)
    assume "\<not> e \<le> 40"
    then have "41 \<le> e" by simp
    then have "(2::rat) powi 41 \<le> 2 powi e" by (intro power_int_increasing) simp_all
    then show False using lo assms(2) by simp
  qed
  then have "p0 \<le> - 12" by (simp add: p0_def)
  then show ?thesis unfolding rd by (simp add: Let_def)
qed

lemma round_double_close:
  assumes "0 < d" and "(of_nat n :: rat) / of_nat d < 2 ^ 41"
  shows "\<exists>m p. round_double n d = Finite m p
           \<and> \<bar>finite_value m p - of_nat n / of_nat d\<bar> \<le> 1 / 4096"
proof -
  obtain m p where r: "round_double n d = Finite m p" and p: "p \<le> - 11"
    using round_double_small [OF assms] by blast
  have "(2::rat) powi p \<le> 2 powi (- 11)"
    using p by (intro power_int_increasing) simp_all
  then have "(2::rat) powi p / 2 \<le> 1 / 4096" by simp
  then have "\<bar>finite_value m p - of_nat n / of_nat d\<bar> \<le> 1 / 4096"
    using round_double_near [OF assms(1) r] by linarith
  then show ?thesis using r by blast
qed

lemma fadd_exact:
  "\<exists>n d. 0 < d \<and> fadd (Finite m1 e1) (Finite m2 e2) = round_double n d
          \<and> (of_nat n :: rat) / of_nat d = finite_value m1 e1 + finite_value m2 e2"
proof -
  let ?e = "min e1 e2"
  let ?s = "m1 * 2 ^ nat (e1 - ?e) + m2 * 2 ^ nat (e2 - ?e)"
  let ?n = "mul_pow2 ?s ?e" and ?d = "mul_pow2 1 (- ?e)"
  have d: "0 < ?d" by (simp add: mul_pow2_def)
  have f: "fadd (Finite m1 e1) (Finite m2 e2) = round_double ?n ?d"
    by (simp only: fadd.simps Let_def)
  have "(of_nat ?n :: rat) / of_nat ?d = of_nat ?s / of_nat 1 * 2 powi (- (- ?e))"
    using mul_pow2_quotient [of 1 ?s "- ?e"] by simp
  also have "\<dots> = of_nat ?s * 2 powi ?e" by simp
  also have "\<dots> = of_nat (m1 * 2 ^ nat (e1 - ?e)) * 2 powi ?e
                  + of_nat (m2 * 2 ^ nat (e2 - ?e)) * 2 powi ?e"
    by (simp only: of_nat_add distrib_right)
  also have "\<dots> = finite_value m1 e1 + finite_value m2 e2"
    by (simp only: finite_value_shift [of ?e e1 m1, OF min.cobounded1]
        finite_value_shift [of ?e e2 m2, OF min.cobounded2])
  finally show ?thesis using d f by blast
qed

lemma one_tenth_value:
  "finite_value 7205759403792794 (- 56) - 1 / 10 = 1 / 180143985094819840"
  by (simp add: finite_value_def power_int_minus)

lemma tenths_small: "k < 10 ^ 13 \<Longrightarrow> (of_nat k :: rat) / of_nat 10 < 2 ^ 41"
proof -
  assume "k < 10 ^ 13"
  then have "(of_nat k :: rat) < of_nat (10 ^ 13)" by (simp only: of_nat_less_iff)
  then show ?thesis by simp
qed

lemma round_tenths_close:
  assumes "k < 10 ^ 13"
  shows "\<exists>m p. round_double k 10 = Finite m p
           \<and> \<bar>finite_value m p - of_nat k / 10\<bar> \<le> 1 / 4096"
  using round_double_close [of 10 k, OF _ tenths_small [OF assms]] by simp

lemma round_tenths_mono:
  assumes "k1 < k2" "k2 < 10 ^ 13"
  shows "fless (round_double k1 10) (round_double k2 10)"
proof -
  have k1: "k1 < 10 ^ 13" using assms by simp
  obtain m1 p1 where a: "round_double k1 10 = Finite m1 p1"
    "\<bar>finite_value m1 p1 - of_nat k1 / 10\<bar> \<le> 1 / 4096"
    using round_tenths_close [OF k1] by blast
  obtain m2 p2 where b: "round_double k2 10 = Finite m2 p2"
    "\<bar>finite_value m2 p2 - of_nat k2 / 10\<bar> \<le> 1 / 4096"
    using round_tenths_close [OF assms(2)] by blast
  have "(of_nat k1 :: rat) + 1 \<le> of_nat k2"
    using assms(1) by (metis Suc_eq_plus1 Suc_leI of_nat_1 of_nat_add of_nat_le_iff)
  then have "finite_value m1 p1 < finite_value m2 p2" using a(2) b(2) by linarith
  then show ?thesis by (simp only: a(1) b(1) fless_iff_value)
qed

lemma add_tenth_close:
  assumes "k < 10 ^ 13"
  shows "\<exists>m p. fadd (round_double k 10) one_tenth = Finite m p
           \<and> \<bar>finite_value m p - of_nat (k + 1) / 10\<bar> < 1 / 20"
proof -
  obtain ma pa where a: "round_double k 10 = Finite ma pa"
    "\<bar>finite_value ma pa - of_nat k / 10\<bar> \<le> 1 / 4096"
    using round_tenths_close [OF assms] by blast
  obtain n d where s: "0 < d"
    "fadd (Finite ma pa) (Finite 7205759403792794 (- 56)) = round_double n d"
    "(of_nat n :: rat) / of_nat d
       = finite_value ma pa + finite_value 7205759403792794 (- 56)"
    using fadd_exact by blast
  have k: "(of_nat k :: rat) / 10 < 1000000000000"
  proof -
    have "(of_nat k :: rat) < of_nat (10 ^ 13)" using assms by (simp only: of_nat_less_iff)
    then show ?thesis by simp
  qed
  have "(of_nat n :: rat) / of_nat d < 2199023255552"
    using s(3) a(2) k one_tenth_value by linarith
  then have "(of_nat n :: rat) / of_nat d < 2 ^ 41" by simp
  then obtain m p where r: "round_double n d = Finite m p"
    "\<bar>finite_value m p - of_nat n / of_nat d\<bar> \<le> 1 / 4096"
    using round_double_close [OF s(1)] by blast
  have "(of_nat (k + 1) :: rat) / 10 = of_nat k / 10 + 1 / 10" by (simp add: field_simps)
  then have "\<bar>finite_value m p - of_nat (k + 1) / 10\<bar> < 1 / 20"
    using r(2) s(3) a(2) one_tenth_value by linarith
  moreover have "fadd (round_double k 10) one_tenth = Finite m p"
    by (simp only: a(1) one_tenth_eval s(2) r(1))
  ultimately show ?thesis by blast
qed

lemma versions_in_filter:
  "versions_in listing
     = map (\<lambda>f. float_of_decimal (the (match_version f)))
         (filter (\<lambda>f. match_version f \<noteq> None) listing)"
  by (induction listing) (auto split: option.splits)

lemma not_update_no_match: "take 7 f \<noteq> ''update_'' \<Longrightarrow> match_version f = None"
  by (simp add: match_version_def)

lemma next_version_cases:
  "next_version_of [] = one_tenth"
  "vs \<noteq> [] \<Longrightarrow> \<exists>m \<in> set vs. (\<forall>v \<in> set vs. \<not> fless m v) \<and> next_version_of vs = fadd m one_tenth"
proof -
  show "next_version_of [] = one_tenth" by (simp add: next_version_of_def)
  assume "vs \<noteq> []"
  then obtain x xs where vs: "vs = x # xs" by (cases vs) auto
  have "next_version_of vs = fadd (py_max x xs) one_tenth"
    by (simp add: next_version_of_def vs)
  then show "\<exists>m \<in> set vs. (\<forall>v \<in> set vs. \<not> fless m v) \<and> next_version_of vs = fadd m one_tenth"
    using py_max_greatest [of x xs] unfolding vs by blast
qed

lemma digit_char_is_digit: "is_digit (digit_char k)"
proof -
  have "list_all is_digit ''0123456789''" by (simp add: is_digit_def)
  moreover have "k mod 10 < length ''0123456789''" by simp
  ultimately show ?thesis unfolding digit_char_def by (simp only: list_all_length)
qed

lemma digits_of_digits: "digits_of n \<noteq> [] \<and> list_all is_digit (digits_of n)"
proof (induction n rule: digits_of.induct)
  case (1 n)
  show ?case
  proof (cases "n < 10")
    case True
    then show ?thesis by (simp add: digits_of.simps [of n] digit_char_is_digit)
  next
    case False
    then show ?thesis using 1 by (simp add: digits_of.simps [of n] digit_char_is_digit)
  qed
qed

lemma digits_of_small: "k < 10 \<Longrightarrow> digits_of k = [digit_char k]"
  by (simp add: digits_of.simps [of k])

lemma format_1f_shape:
  "\<exists>ds c. format_1f (Finite m e) = ds @ ''.'' @ [c] \<and> ds \<noteq> [] \<and> list_all is_digit ds \<and> is_digit c"
proof -
  let ?t = "round_half_even (mul_pow2 (10 * m) e) (mul_pow2 1 (- e))"
  have "digits_of (?t mod 10) = [digit_char (?t mod 10)]"
    by (rule digits_of_small) simp
  then have "format_1f (Finite m e) = digits_of (?t div 10) @ ''.'' @ [digit_char (?t mod 10)]"
    by (simp add: Let_def)
  then show ?thesis using digits_of_digits [of "?t div 10"] digit_char_is_digit by blast
qed

lemma not_digit_chars: "\<not> is_digit (CHR ''.'')" "\<not> is_digit (CHR ''_'')"
  by (simp_all add: is_digit_def)

lemma match_version_shape:
  assumes "ds \<noteq> []" "list_all is_digit ds" "is_digit c"
  shows "match_version (''update_'' @ (ds @ ''.'' @ [c]) @ ''_'' @ rest) = Some (ds @ ''.'' @ [c])"
proof -
  have a: "takeWhile is_digit (ds @ CHR ''.'' # c # CHR ''_'' # rest) = ds"
    using assms(2) not_digit_chars(1) by (simp add: takeWhile_tail list_all_iff)
  have b: "dropWhile is_digit (ds @ CHR ''.'' # c # CHR ''_'' # rest) = CHR ''.'' # c # CHR ''_'' # rest"
    using assms(2) not_digit_chars(1) by (simp add: dropWhile_append3 list_all_iff)
  show ?thesis
    using assms(1,3) by (simp add: match_version_def a b not_digit_chars)
qed

lemma zip_name_matches:
  "match_version (zip_name (Finite m e) t msg) = Some (format_1f (Finite m e))"
proof -
  obtain ds c where f: "format_1f (Finite m e) = ds @ ''.'' @ [c]" "ds \<noteq> []"
    "list_all is_digit ds" "is_digit c"
    using format_1f_shape by blast
  have "zip_name (Finite m e) t msg
      = ''update_'' @ (ds @ ''.'' @ [c]) @ ''_'' @ (t @ ''_'' @ sanitize_filename (take 20 msg) @ ''.zip'')"
    by (simp only: zip_name_def f(1) append_assoc)
  then show ?thesis by (simp only: f(1) match_version_shape [OF f(2-4)])
qed

lemma format_1f_tenths:
  assumes "\<bar>finite_value m p - of_nat K / 10\<bar> < 1 / 20"
  shows "format_1f (Finite m p) = show_tenths K"
proof -
  let ?n = "mul_pow2 (10 * m) p" and ?d = "mul_pow2 1 (- p)"
  let ?t = "round_half_even ?n ?d"
  have d: "0 < ?d" by (simp add: mul_pow2_def)
  have "(of_nat ?n :: rat) / of_nat ?d = of_nat (10 * m) / of_nat 1 * 2 powi (- (- p))"
    using mul_pow2_quotient [of 1 "10 * m" "- p"] by simp
  also have "\<dots> = 10 * finite_value m p" by (simp add: finite_value_def)
  finally have q: "(of_nat ?n :: rat) / of_nat ?d = 10 * finite_value m p" .
  have "\<bar>(of_nat ?t :: rat) - 10 * finite_value m p\<bar> \<le> 1 / 2"
    using round_half_even_near [OF d, of ?n] by (simp only: q)
  then have "(of_nat ?t :: rat) < of_nat K + 1" "(of_nat K :: rat) < of_nat ?t + 1"
    using assms by linarith+
  then have "(of_nat ?t :: rat) < of_nat (K + 1)" "(of_nat K :: rat) < of_nat (?t + 1)"
    by simp_all
  then have "?t < K + 1" "K < ?t + 1" by (simp_all only: of_nat_less_iff)
  then have "?t = K" by simp
  then show ?thesis by (simp add: show_tenths_def Let_def)
qed

lemma nat_of_digits_snoc: "nat_of_digits (xs @ [c]) = 10 * nat_of_digits xs + digit_val c"
  by (simp add: nat_of_digits_def)

lemma digit_val_digit_char: "r < 10 \<Longrightarrow> digit_val (digit_char r) = r"
proof -
  assume "r < 10"
  then have "r \<in> {0, 1, 2, 3, 4, 5, 6, 7, 8, 9}" by auto
  then show ?thesis
    by (elim insertE) (simp_all add: digit_val_def digit_char_def)
qed

lemma nat_of_digits_digits_of: "nat_of_digits (digits_of n) = n"
proof (induction n rule: digits_of.induct)
  case (1 n)
  show ?case
  proof (cases "n < 10")
    case True
    then show ?thesis
      using nat_of_digits_snoc [of "[]" "digit_char n"]
      by (simp add: digits_of_small digit_val_digit_char nat_of_digits_def)
  next
    case False
    then have "digits_of n = digits_of (n div 10) @ [digit_char (n mod 10)]"
      by (simp add: digits_of.simps [of n])
    then show ?thesis
      using 1 False by (simp add: nat_of_digits_snoc digit_val_digit_char)
  qed
qed

lemma float_of_show_tenths: "float_of_decimal (show_tenths k) = round_double k 10"
proof -
  let ?a = "digits_of (k div 10)" and ?c = "digit_char (k mod 10)"
  have s: "show_tenths k = ?a @ CHR ''.'' # [?c]"
    by (simp add: show_tenths_def digits_of_small)
  have all: "list_all is_digit ?a" using digits_of_digits by blast
  have a: "takeWhile is_digit (?a @ CHR ''.'' # [?c]) = ?a"
    using all not_digit_chars(1) by (simp add: takeWhile_tail list_all_iff)
  have "nat_of_digits (?a @ [?c]) = k"
    by (simp add: nat_of_digits_snoc nat_of_digits_digits_of digit_val_digit_char)
  then show ?thesis
    by (simp add: float_of_decimal_def s a Let_def)
qed

lemma show_tenths_digits: "nat_of_digits (filter is_digit (show_tenths k)) = k"
proof -
  let ?a = "digits_of (k div 10)" and ?c = "digit_char (k mod 10)"
  have all: "list_all is_digit ?a" using digits_of_digits by blast
  have "filter is_digit (show_tenths k) = ?a @ [?c]"
    using all not_digit_chars(1) digit_char_is_digit
    by (simp add: show_tenths_def digits_of_small list_all_iff filter_id_conv)
  then show ?thesis
    by (simp add: nat_of_digits_snoc nat_of_digits_digits_of digit_val_digit_char)
qed

lemma show_tenths_inj: "show_tenths k = show_tenths k' \<Longrightarrow> k = k'"
  by (metis show_tenths_digits)

lemma matched_versions:
  "set (versions_in listing)
     = (\<lambda>f. float_of_decimal (the (match_version f)))
         ` {f \<in> set listing. match_version f \<noteq> None}"
  by (simp add: versions_in_filter)

lemma greatest_tenths:
  assumes form: "\<forall>f \<in> set listing. \<forall>g. match_version f = Some g
                   \<longrightarrow> (\<exists>k<10 ^ 13. g = show_tenths k)"
    and K: "K < 10 ^ 13" "f0 \<in> set listing" "match_version f0 = Some (show_tenths K)"
    and top: "\<forall>f \<in> set listing. \<forall>k<10 ^ 13. match_version f = Some (show_tenths k) \<longrightarrow> k \<le> K"
  shows "\<exists>m p. next_version_of (versions_in listing) = Finite m p
           \<and> format_1f (Finite m p) = show_tenths (K + 1)"
proof -
  let ?vs = "versions_in listing"
  have inK: "round_double K 10 \<in> set ?vs"
  proof -
    have "f0 \<in> {f \<in> set listing. match_version f \<noteq> None}" using K(2,3) by simp
    then have "float_of_decimal (the (match_version f0)) \<in> set ?vs"
      unfolding matched_versions by (rule imageI)
    then show ?thesis by (simp add: K(3) float_of_show_tenths)
  qed
  then have "?vs \<noteq> []" by auto
  then obtain m where m: "m \<in> set ?vs" "\<forall>v \<in> set ?vs. \<not> fless m v"
    "next_version_of ?vs = fadd m one_tenth"
    using next_version_cases(2) [of ?vs] by blast
  obtain f where f: "f \<in> set listing" "match_version f \<noteq> None"
    "m = float_of_decimal (the (match_version f))"
    using m(1) unfolding matched_versions by blast
  obtain g where g: "match_version f = Some g" using f(2) by blast
  obtain k where k: "k < 10 ^ 13" "g = show_tenths k" using form f(1) g by blast
  have mk: "m = round_double k 10" by (simp add: f(3) g k(2) float_of_show_tenths)
  have "k \<le> K" using top f(1) k g by blast
  moreover have "\<not> k < K"
  proof
    assume "k < K"
    then have "fless (round_double k 10) (round_double K 10)"
      using K(1) by (rule round_tenths_mono)
    then show False using m(2) inK mk by blast
  qed
  ultimately have "k = K" by simp
  then have "next_version_of ?vs = fadd (round_double K 10) one_tenth"
    using m(3) mk by simp
  moreover obtain m' p' where "fadd (round_double K 10) one_tenth = Finite m' p'"
    "\<bar>finite_value m' p' - of_nat (K + 1) / 10\<bar> < 1 / 20"
    using add_tenth_close [OF K(1)] by blast
  ultimately show ?thesis using format_1f_tenths by metis
qed

lemmas decimal_eval = float_of_decimal_def is_digit_def nat_of_digits_def digit_val_def

lemma two_archives_match:
  "match_version ''update_1.3_20240101_x.zip'' = Some ''1.3''"
  "match_version ''update_0.9_20240102_y.zip'' = Some ''0.9''"
  "match_version ''notes.txt'' = None"
  by (simp_all add: match_version_def is_digit_def)

lemma float_1_3: "float_of_decimal ''1.3'' = Finite 5854679515581645 (- 52)"
  by (simp add: decimal_eval float_eval)

lemma float_0_9: "float_of_decimal ''0.9'' = Finite 8106479329266893 (- 53)"
  by (simp add: decimal_eval float_eval)

lemma less_0_9_1_3: "fless (Finite 8106479329266893 (- 53)) (Finite 5854679515581645 (- 52))"
  by simp

lemma add_1_3_tenth:
  "fadd (Finite 5854679515581645 (- 52)) one_tenth = Finite 6305039478318695 (- 52)"
proof -
  have "fadd (Finite 5854679515581645 (- 52)) one_tenth
      = round_double 100880631653099114 72057594037927936"
    by (simp add: one_tenth_eval mul_pow2_def)
  also have "\<dots> = Finite 6305039478318695 (- 52)"
    by (simp add: float_eval)
  finally show ?thesis .
qed

lemma format_1_4: "format_1f (Finite 6305039478318695 (- 52)) = ''1.4''"
  by (simp add: mul_pow2_def round_half_even_def Let_def digits_of.simps digit_char_def)

lemma double_1_4: "round_double 14 10 = Finite 6305039478318694 (- 52)"
  by (simp add: float_eval)

lemma two_archives_versions:
  "(\<lambda>f. float_of_decimal (the (match_version f))) ` set two_archives
     = {Finite 5854679515581645 (- 52), Finite 8106479329266893 (- 53)}"
  by (simp add: two_archives_def two_archives_match float_1_3 float_0_9)

lemma greatest_of_two:
  assumes vs: "set vs = {Finite 5854679515581645 (- 52), Finite 8106479329266893 (- 53)}"
    and m: "m \<in> set vs" "\<forall>v \<in> set vs. \<not> fless m v"
  shows "m = Finite 5854679515581645 (- 52)"
proof -
  let ?a = "Finite 5854679515581645 (- 52)" and ?b = "Finite 8106479329266893 (- 53)"
  have "?a \<in> set vs" by (simp only: vs insertI1)
  with m(2) have n: "\<not> fless m ?a" by (rule bspec)
  have "m \<noteq> ?b"
  proof
    assume e: "m = ?b"
    have "fless m ?a" unfolding e by (rule less_0_9_1_3)
    with n show False by (rule notE)
  qed
  moreover have "m = ?a \<or> m = ?b" using m(1) by (simp only: vs insert_iff empty_iff) simp
  ultimately show "m = ?a" by (elim disjE) simp_all
qed

text \<open>
  In float terms the next version is the sum of the greatest parsed version and 0.1,
  rounded once more. For 1.3 it is not the float that \<open>1.4\<close> denotes but the next one
  above it.
\<close>

lemma next_version_float_sum:
  assumes "dirs w d = Some listing"
  shows "(versions_in listing = [] \<longrightarrow> get_next_version w d = Inr one_tenth)
     \<and> (versions_in listing \<noteq> [] \<longrightarrow>
          (\<exists>m \<in> set (versions_in listing).
              (\<forall>v \<in> set (versions_in listing). \<not> fless m v)
              \<and> get_next_version w d = Inr (fadd m one_tenth)))
     \<and> versions_in listing
          = map (\<lambda>f. float_of_decimal (the (match_version f)))
              (filter (\<lambda>f. match_version f \<noteq> None) listing)
     \<and> (set (filter (\<lambda>f. match_version f \<noteq> None) listing) = set two_archives \<longrightarrow>
          get_next_version w d = Inr (Finite 6305039478318695 (- 52))
          \<and> format_1f (Finite 6305039478318695 (- 52)) = ''1.4'')
     \<and> (\<forall>m e t msg.
          match_version (zip_name (Finite m e) t msg) = Some (format_1f (Finite m e)))"
proof -
  have g: "get_next_version w d = Inr (next_version_of (versions_in listing))"
    by (simp add: get_next_version_def listdir_def assms)
  have 1: "versions_in listing = [] \<longrightarrow> get_next_version w d = Inr one_tenth"
    by (simp add: g next_version_cases(1))
  have 2: "versions_in listing \<noteq> [] \<longrightarrow>
          (\<exists>m \<in> set (versions_in listing).
              (\<forall>v \<in> set (versions_in listing). \<not> fless m v)
              \<and> get_next_version w d = Inr (fadd m one_tenth))"
    using next_version_cases(2) [of "versions_in listing"] by (simp add: g)
  have 4: "get_next_version w d = Inr (Finite 6305039478318695 (- 52))"
    if s: "set (filter (\<lambda>f. match_version f \<noteq> None) listing) = set two_archives"
  proof -
    have "set (versions_in listing)
        = (\<lambda>f. float_of_decimal (the (match_version f))) ` set two_archives"
      by (simp only: versions_in_filter [of listing] set_map s)
    then have vs: "set (versions_in listing)
        = {Finite 5854679515581645 (- 52), Finite 8106479329266893 (- 53)}"
      by (simp only: two_archives_versions)
    then have "versions_in listing \<noteq> []" by (intro notI) simp
    with 2 obtain m where m: "m \<in> set (versions_in listing)"
      "\<forall>v \<in> set (versions_in listing). \<not> fless m v"
      "get_next_version w d = Inr (fadd m one_tenth)"
      by (elim impE bexE conjE)
    have "m = Finite 5854679515581645 (- 52)"
      using vs m(1) m(2) by (rule greatest_of_two)
    then show ?thesis using m(3) by (simp only: add_1_3_tenth)
  qed
  have 5: "set (filter (\<lambda>f. match_version f \<noteq> None) listing) = set two_archives \<longrightarrow>
          get_next_version w d = Inr (Finite 6305039478318695 (- 52))
          \<and> format_1f (Finite 6305039478318695 (- 52)) = ''1.4''"
    using 4 format_1_4 by (intro impI conjI)
  have 6: "\<forall>m e t msg.
      match_version (zip_name (Finite m e) t msg) = Some (format_1f (Finite m e))"
    by (intro allI) (rule zip_name_matches)
  show ?thesis
    by (intro conjI) (rule 1, rule 2, rule versions_in_filter, rule 5, rule 6)
qed

lemma scenario_b_float_value:
  "dirs archived_world ''updates'' = Some (''notes.txt'' # two_archives)
   \<and> get_next_version archived_world ''updates'' = Inr (Finite 6305039478318695 (- 52))
   \<and> format_1f (Finite 6305039478318695 (- 52)) = ''1.4''
   \<and> round_double 14 10 = Finite 6305039478318694 (- 52)"
proof -
  have d: "dirs archived_world ''updates'' = Some (''notes.txt'' # two_archives)"
    by (simp add: archived_world_def)
  have s: "set (filter (\<lambda>f. match_version f \<noteq> None) (''notes.txt'' # two_archives))
      = set two_archives"
    by (simp add: two_archives_def two_archives_match)
  note t = next_version_float_sum [OF d]
  note u = mp [OF conjunct1 [OF conjunct2 [OF conjunct2 [OF conjunct2 [OF t]]]] s]
  show ?thesis
    by (intro conjI) (rule d, rule conjunct1 [OF u], rule conjunct2 [OF u], rule double_1_4)
qed

lemma format_1f_show_tenths:
  "format_1f (Finite m e)
     = show_tenths (round_half_even (mul_pow2 (10 * m) e) (mul_pow2 1 (- e)))"
  by (simp add: show_tenths_def Let_def)

lemma show_tenths_examples:
  "show_tenths 1 = ''0.1''" "show_tenths 9 = ''0.9''" "show_tenths 13 = ''1.3''"
  "show_tenths 14 = ''1.4''"
  by (simp_all add: show_tenths_def digits_of.simps digit_char_def)

text \<open>
  C3 as the program has it. When the versions in the names of the matching entries have
  one fractional digit, as the program writes them, and are below \<open>10 ^ 12\<close>, the next
  version printed with one fractional digit, as in the archive name, is the greatest of
  them plus 0.1; it is 0.1 when no entry matches. Entries that do not match play no
  part.
\<close>

theorem next_version_prints_max_plus_tenth:
  assumes "dirs w d = Some listing"
    and "\<forall>f \<in> set listing. \<forall>g. match_version f = Some g
           \<longrightarrow> (\<exists>k<10 ^ 13. g = show_tenths k)"
  shows "((\<forall>f \<in> set listing. match_version f = None) \<longrightarrow>
            get_next_version w d = Inr one_tenth \<and> format_1f one_tenth = ''0.1'')
     \<and> (\<forall>K<10 ^ 13.
            (\<exists>f \<in> set listing. match_version f = Some (show_tenths K)) \<longrightarrow>
            (\<forall>f \<in> set listing. \<forall>k<10 ^ 13.
                match_version f = Some (show_tenths k) \<longrightarrow> k \<le> K) \<longrightarrow>
            (\<exists>v. get_next_version w d = Inr v \<and> format_1f v = show_tenths (K + 1)))"
proof (intro conjI allI impI)
  assume none: "\<forall>f \<in> set listing. match_version f = None"
  then have "filter (\<lambda>f. match_version f \<noteq> None) listing = []"
    by (simp add: filter_empty_conv)
  then have "versions_in listing = []" by (simp add: versions_in_filter)
  then show "get_next_version w d = Inr one_tenth"
    by (simp add: get_next_version_def listdir_def assms(1) next_version_cases(1))
  show "format_1f one_tenth = ''0.1''" by (rule format_one_tenth)
next
  fix K :: nat
  assume K: "K < 10 ^ 13"
    and ex: "\<exists>f \<in> set listing. match_version f = Some (show_tenths K)"
    and top: "\<forall>f \<in> set listing. \<forall>k<10 ^ 13.
                match_version f = Some (show_tenths k) \<longrightarrow> k \<le> K"
  from ex obtain f0 where f0: "f0 \<in> set listing" "match_version f0 = Some (show_tenths K)"
    by blast
  obtain m p where v: "next_version_of (versions_in listing) = Finite m p"
    "format_1f (Finite m p) = show_tenths (K + 1)"
    using greatest_tenths [OF assms(2) K f0 top] by blast
  have "get_next_version w d = Inr (Finite m p)"
    by (simp add: get_next_version_def listdir_def assms(1) v(1))
  then show "\<exists>v. get_next_version w d = Inr v \<and> format_1f v = show_tenths (K + 1)"
    using v(2) by blast
qed

theorem next_version_prints_max_plus_tenth_witness:
  "dirs archived_world ''updates'' = Some (''notes.txt'' # two_archives)
   \<and> match_version ''update_1.3_20240101_x.zip'' = Some (show_tenths 13)
   \<and> match_version ''update_0.9_20240102_y.zip'' = Some (show_tenths 9)
   \<and> match_version ''notes.txt'' = None
   \<and> (\<exists>v. get_next_version archived_world ''updates'' = Inr v \<and> format_1f v = ''1.4'')"
proof -
  let ?l = "''notes.txt'' # two_archives"
  have d: "dirs archived_world ''updates'' = Some ?l"
    by (simp add: archived_world_def)
  have m: "match_version ''update_1.3_20240101_x.zip'' = Some (show_tenths 13)"
    "match_version ''update_0.9_20240102_y.zip'' = Some (show_tenths 9)"
    "match_version ''notes.txt'' = None"
    by (simp_all only: two_archives_match show_tenths_examples)
  have s: "set ?l = {''notes.txt'', ''update_1.3_20240101_x.zip'', ''update_0.9_20240102_y.zip''}"
    by (simp add: two_archives_def)
  have small: "(13::nat) < 10 ^ 13" "(9::nat) < 10 ^ 13" by simp_all
  have form: "\<forall>f \<in> set ?l. \<forall>g. match_version f = Some g \<longrightarrow> (\<exists>k<10 ^ 13. g = show_tenths k)"
  proof (intro ballI allI impI)
    fix f g assume f: "f \<in> set ?l" and g: "match_version f = Some g"
    from f consider "f = ''notes.txt''" | "f = ''update_1.3_20240101_x.zip''"
      | "f = ''update_0.9_20240102_y.zip''"
      unfolding s by blast
    then show "\<exists>k<10 ^ 13. g = show_tenths k"
    proof cases
      case 1
      then show ?thesis using g m(3) by simp
    next
      case 2
      then have "g = show_tenths 13" using g m(1) by simp
      then show ?thesis using small(1) by (intro exI [of _ 13] conjI)
    next
      case 3
      then have "g = show_tenths 9" using g m(2) by simp
      then show ?thesis using small(2) by (intro exI [of _ 9] conjI)
    qed
  qed
  have ex: "\<exists>f \<in> set ?l. match_version f = Some (show_tenths 13)"
    unfolding s using m(1) by blast
  have top: "\<forall>f \<in> set ?l. \<forall>k<10 ^ 13. match_version f = Some (show_tenths k) \<longrightarrow> k \<le> 13"
  proof (intro ballI allI impI)
    fix f k assume f: "f \<in> set ?l" and k: "match_version f = Some (show_tenths k)"
    from f consider "f = ''notes.txt''" | "f = ''update_1.3_20240101_x.zip''"
      | "f = ''update_0.9_20240102_y.zip''"
      unfolding s by blast
    then show "k \<le> 13"
    proof cases
      case 1
      then show ?thesis using k m(3) by simp
    next
      case 2
      then have "show_tenths k = show_tenths 13" using k m(1) by simp
      then show ?thesis using show_tenths_inj by blast
    next
      case 3
      then have "show_tenths k = show_tenths 9" using k m(2) by simp
      then have "k = 9" by (rule show_tenths_inj)
      then show ?thesis by simp
    qed
  qed
  note t = conjunct2 [OF next_version_prints_max_plus_tenth [OF d form]]
  have "\<exists>v. get_next_version archived_world ''updates'' = Inr v
          \<and> format_1f v = show_tenths (13 + 1)"
    using t small(1) ex top by blast
  then have "\<exists>v. get_next_version archived_world ''updates'' = Inr v \<and> format_1f v = ''1.4''"
    by (simp add: show_tenths_examples)
  then show ?thesis using d m by blast
qed

text \<open>
  C3 as the specification states it fails: above \<open>2 ^ 53\<close> adding 0.1 to a float changes
  nothing. With the entry \<open>update_9007199254740993.0_x.zip\<close> the version read is
  \<open>2 ^ 53\<close> and the next version is \<open>2 ^ 53\<close> again, printed as \<open>9007199254740992.0\<close>:
  no 0.1 has been added, and the number is below the one in the directory.
\<close>

theorem huge_version_not_increased:
  "dirs huge_version_world ''updates'' = Some [''update_9007199254740993.0_x.zip'']
   \<and> match_version ''update_9007199254740993.0_x.zip'' = Some ''9007199254740993.0''
   \<and> float_of_decimal ''9007199254740993.0'' = Finite 4503599627370496 1
   \<and> get_next_version huge_version_world ''updates'' = Inr (Finite 4503599627370496 1)
   \<and> format_1f (Finite 4503599627370496 1) = ''9007199254740992.0''"
proof -
  have d: "dirs huge_version_world ''updates'' = Some [''update_9007199254740993.0_x.zip'']"
    by (simp add: huge_version_world_def)
  have m: "match_version ''update_9007199254740993.0_x.zip'' = Some ''9007199254740993.0''"
    by (simp add: match_version_def is_digit_def)
  have n: "nat_of_digits ''90071992547409930'' = 90071992547409930"
    by (simp add: nat_of_digits_def digit_val_def)
  have "float_of_decimal ''9007199254740993.0'' = round_double 90071992547409930 10"
    using n by (simp add: float_of_decimal_def is_digit_def)
  also have "\<dots> = Finite 4503599627370496 1" by (simp add: float_eval)
  finally have f: "float_of_decimal ''9007199254740993.0'' = Finite 4503599627370496 1" .
  have "fadd (Finite 4503599627370496 1) one_tenth
      = round_double 649037107316853460772071444945306 72057594037927936"
    by (simp add: one_tenth_eval mul_pow2_def)
  also have "\<dots> = Finite 4503599627370496 1" by (simp add: float_eval)
  finally have a: "fadd (Finite 4503599627370496 1) one_tenth = Finite 4503599627370496 1" .
  have g: "get_next_version huge_version_world ''updates'' = Inr (Finite 4503599627370496 1)"
    by (simp add: get_next_version_def listdir_def d m f next_version_of_def py_max_def a)
  have p: "format_1f (Finite 4503599627370496 1) = ''9007199254740992.0''"
    by (simp add: mul_pow2_def round_half_even_def Let_def digits_of.simps digit_char_def)
  show ?thesis using d m f g p by simp
qed

end
